theory Spec2Isabelle
  imports Main
begin

section \<open>Python objects as values\<close>

text \<open>
  The module \<^verbatim>\<open>draping/draping.py\<close> patches attributes of classes and modules. It reads
  one attribute without binding it (\<^verbatim>\<open>inspect.getattr_static\<close>), follows the
  \<^verbatim>\<open>__wrapped__\<close> references of the object found there, builds a new object and writes
  it back with \<^verbatim>\<open>setattr\<close>. No object that already exists is mutated; only the result
  of a decorator call is given attributes before it is stored. Objects are therefore
  modelled as values: a function object carries the attributes the code reads, and a
  reference to another object is the value of that object.

  Decorators, classes and modules are compared by identity (\<^verbatim>\<open>is\<close>), so they are
  represented by an identifier.

  The interpreter modelled is CPython 3.10 or later, where \<^verbatim>\<open>staticmethod\<close> and
  \<^verbatim>\<open>classmethod\<close> objects expose their function as \<^verbatim>\<open>__wrapped__\<close> and are truthy.

  Outside the model: the lock \<^verbatim>\<open>_patch_lock\<close> (every call runs alone), the attributes
  that the classes of the interpreter themselves define, and decorators that raise or
  that return an object which is not a new function.
\<close>

type_synonym ident = nat

text \<open>
  What calling a function object does, as a term: the body of a function written with
  \<^verbatim>\<open>def\<close>, or the effect of one decorator around the behaviour of the callable it was
  given. Two callables with the same term give the same call results.
\<close>

datatype behaviour =
    Body string
  | Applied ident behaviour
  | Opaque

datatype pyobj =
    Function (fn_name: string) (fn_qualname: string) (fn_module: string)
             (fn_wrapped: "pyobj option") (fn_applied: "ident option") (fn_code: behaviour)
  | StaticMethod pyobj
  | ClassMethod pyobj
  | BoundMethod pyobj pyobj
  | Instance ident
  | ClassObj ident
  | ModuleObj ident
  | BuiltinType
  | NoneObj

text \<open>
  \<^item> \<open>Function n q m wr ap c\<close>: \<^verbatim>\<open>__name__\<close>, \<^verbatim>\<open>__qualname__\<close>, \<^verbatim>\<open>__module__\<close>, the
    entry \<^verbatim>\<open>__wrapped__\<close> of its \<^verbatim>\<open>__dict__\<close> (if any), the entry
    \<^verbatim>\<open>_applied_decorator\<close> (if any, a decorator's identity) and its behaviour.
  \<^item> \<open>BoundMethod self func\<close>: \<^verbatim>\<open>__self__\<close> and \<^verbatim>\<open>__func__\<close>.
  \<^item> \<open>Instance c\<close>: an instance of the class \<open>c\<close>.
  \<^item> \<open>BuiltinType\<close>: a class of the interpreter (\<^verbatim>\<open>type\<close>, \<^verbatim>\<open>function\<close>, ...); it
    has none of the attributes a program defines.
\<close>

datatype pyerror = TypeError | AttributeError | IndexError

text \<open>
  A decorator is a callable from callables to callables. The ones modelled return a new
  function object on every call: either a closure that was passed through
  \<^verbatim>\<open>functools.wraps\<close>, or a bare closure, which keeps the name, qualified name and module
  it was defined with.
\<close>

record decorator =
  uses_wraps :: bool
  wrapper_name :: string
  wrapper_qualname :: string
  wrapper_module :: string

record world =
  sys_modules :: "string \<rightharpoonup> ident"
  attrs :: "ident \<Rightarrow> string \<rightharpoonup> pyobj"
  mro_rest :: "ident \<Rightarrow> ident list"
  deco_table :: "ident \<Rightarrow> decorator"

text \<open>
  \<open>sys_modules\<close> maps a module name to the module object, \<open>attrs\<close> is the
  \<^verbatim>\<open>__dict__\<close> of every class and module, \<open>mro_rest c\<close> is the method resolution
  order of the class \<open>c\<close> after \<open>c\<close> itself, and \<open>deco_table\<close> gives the code behind
  each decorator identity.
\<close>

subsection \<open>Attribute access\<close>

text \<open>\<^verbatim>\<open>bool(x)\<close>: only \<^verbatim>\<open>None\<close> is falsy among the objects modelled.\<close>

fun truthy :: "pyobj \<Rightarrow> bool" where
  "truthy NoneObj = False"
| "truthy _ = True"

text \<open>
  \<^verbatim>\<open>x.__wrapped__\<close>, \<open>None\<close> when \<^verbatim>\<open>hasattr(x, '__wrapped__')\<close> is false. A bound
  method forwards the lookup to its function.
\<close>

fun wrapped_attr :: "pyobj \<Rightarrow> pyobj option" where
  "wrapped_attr (Function n q m wr ap c) = wr"
| "wrapped_attr (StaticMethod f) = Some f"
| "wrapped_attr (ClassMethod f) = Some f"
| "wrapped_attr (BoundMethod s f) = wrapped_attr f"
| "wrapped_attr _ = None"

text \<open>\<^verbatim>\<open>getattr(x, '_applied_decorator', None)\<close>, with \<open>None\<close> for Python's \<^verbatim>\<open>None\<close>.\<close>

fun applied_attr :: "pyobj \<Rightarrow> ident option" where
  "applied_attr (Function n q m wr ap c) = ap"
| "applied_attr (BoundMethod s f) = applied_attr f"
| "applied_attr _ = None"

text \<open>\<^verbatim>\<open>__name__\<close>, \<^verbatim>\<open>__qualname__\<close> and \<^verbatim>\<open>__module__\<close> of an object that has them.\<close>

fun name_attrs :: "pyobj \<Rightarrow> (string \<times> string \<times> string) option" where
  "name_attrs (Function n q m wr ap c) = Some (n, q, m)"
| "name_attrs (StaticMethod f) = name_attrs f"
| "name_attrs (ClassMethod f) = name_attrs f"
| "name_attrs (BoundMethod s f) = name_attrs f"
| "name_attrs _ = None"

fun code_of :: "pyobj \<Rightarrow> behaviour" where
  "code_of (Function n q m wr ap c) = c"
| "code_of (StaticMethod f) = code_of f"
| "code_of (ClassMethod f) = code_of f"
| "code_of (BoundMethod s f) = code_of f"
| "code_of _ = Opaque"

text \<open>\<^verbatim>\<open>x.__class__\<close>.\<close>

fun class_of :: "pyobj \<Rightarrow> pyobj" where
  "class_of (Instance c) = ClassObj c"
| "class_of _ = BuiltinType"

text \<open>\<^verbatim>\<open>inspect.getmodule\<close> of a function whose \<^verbatim>\<open>__module__\<close> is \<open>m\<close>.\<close>

definition getmodule :: "world \<Rightarrow> string \<Rightarrow> pyobj" where
  "getmodule w m = (case sys_modules w m of None \<Rightarrow> NoneObj | Some i \<Rightarrow> ModuleObj i)"

text \<open>\<^verbatim>\<open>getattr(module, name, None)\<close> on what \<open>getmodule\<close> returned.\<close>

fun getattr_or_none :: "world \<Rightarrow> pyobj \<Rightarrow> string \<Rightarrow> pyobj" where
  "getattr_or_none w (ModuleObj i) n = (case attrs w i n of None \<Rightarrow> NoneObj | Some v \<Rightarrow> v)"
| "getattr_or_none w _ n = NoneObj"

fun lookup_mro :: "world \<Rightarrow> ident list \<Rightarrow> string \<Rightarrow> pyobj option" where
  "lookup_mro w [] n = None"
| "lookup_mro w (c # cs) n = (case attrs w c n of Some v \<Rightarrow> Some v | None \<Rightarrow> lookup_mro w cs n)"

text \<open>
  \<^verbatim>\<open>inspect.getattr_static(parent, name)\<close>: the entry found in the \<^verbatim>\<open>__dict__\<close> of the
  class or of one of its bases, or in the module, without binding it; \<^verbatim>\<open>AttributeError\<close>
  otherwise.
\<close>

fun getattr_static :: "world \<Rightarrow> pyobj \<Rightarrow> string \<Rightarrow> pyerror + pyobj" where
  "getattr_static w (ClassObj c) n =
     (case lookup_mro w (c # mro_rest w c) n of None \<Rightarrow> Inl AttributeError | Some v \<Rightarrow> Inr v)"
| "getattr_static w (ModuleObj i) n =
     (case attrs w i n of None \<Rightarrow> Inl AttributeError | Some v \<Rightarrow> Inr v)"
| "getattr_static w _ n = Inl AttributeError"

text \<open>\<^verbatim>\<open>setattr(parent, name, value)\<close> writes the \<^verbatim>\<open>__dict__\<close> of the class or module itself.\<close>

fun setattr :: "world \<Rightarrow> pyobj \<Rightarrow> string \<Rightarrow> pyobj \<Rightarrow> pyerror + world" where
  "setattr w (ClassObj c) n v = Inr (w\<lparr>attrs := (attrs w)(c := (attrs w c)(n \<mapsto> v))\<rparr>)"
| "setattr w (ModuleObj i) n v = Inr (w\<lparr>attrs := (attrs w)(i := (attrs w i)(n \<mapsto> v))\<rparr>)"
| "setattr w _ n v = Inl AttributeError"

subsection \<open>Decorator calls\<close>

text \<open>
  \<^verbatim>\<open>functools.update_wrapper(wrapper, wrapped)\<close>: copies the names that \<open>wrapped\<close> has,
  updates the \<^verbatim>\<open>__dict__\<close> of the wrapper with the one of \<open>wrapped\<close> (so an inner
  \<^verbatim>\<open>_applied_decorator\<close> is inherited), and then sets \<^verbatim>\<open>__wrapped__\<close>.
\<close>

fun update_wrapper :: "pyobj \<Rightarrow> pyobj \<Rightarrow> pyobj" where
  "update_wrapper (Function n q m wr ap c) wrapped =
     (let (n', q', m') = (case name_attrs wrapped of None \<Rightarrow> (n, q, m) | Some t \<Rightarrow> t);
          ap' = (case applied_attr wrapped of None \<Rightarrow> ap | Some d \<Rightarrow> Some d)
      in Function n' q' m' (Some wrapped) ap' c)"
| "update_wrapper x wrapped = x"

text \<open>\<^verbatim>\<open>setattr(f, '_applied_decorator', d)\<close> on a function object.\<close>

fun set_applied :: "pyobj \<Rightarrow> ident \<Rightarrow> pyobj" where
  "set_applied (Function n q m wr ap c) d = Function n q m wr (Some d) c"
| "set_applied x d = x"

text \<open>\<^verbatim>\<open>d(f)\<close> for a decorator \<open>d\<close>.\<close>

definition call_decorator :: "world \<Rightarrow> ident \<Rightarrow> pyobj \<Rightarrow> pyobj" where
  "call_decorator w d f =
     (let info = deco_table w d;
          closure = Function (wrapper_name info) (wrapper_qualname info) (wrapper_module info)
                      None None (Applied d (code_of f))
      in if uses_wraps info then update_wrapper closure f else closure)"

section \<open>\<^verbatim>\<open>_get_parent_and_name\<close>\<close>

text \<open>\<^verbatim>\<open>s.split('.')\<close>.\<close>

fun split_dot :: "string \<Rightarrow> string list" where
  "split_dot [] = [[]]"
| "split_dot (c # cs) =
     (if c = CHR ''.'' then [] # split_dot cs
      else (case split_dot cs of [] \<Rightarrow> [[c]] | p # ps \<Rightarrow> (c # p) # ps))"

text \<open>
  The two \<^verbatim>\<open>parts.pop()\<close> take the last and the last but one segment; a list with fewer
  than two segments would raise \<^verbatim>\<open>IndexError\<close>.
\<close>

fun get_parent_and_name :: "world \<Rightarrow> pyobj \<Rightarrow> pyerror + (pyobj \<times> string)" where
  "get_parent_and_name w (BoundMethod self func) =
     (case name_attrs func of
        None \<Rightarrow> Inl AttributeError
      | Some (n, q, m) \<Rightarrow> Inr (class_of self, n))"
| "get_parent_and_name w (Function n q m wr ap c) =
     (if CHR ''.'' \<in> set q then
        (case rev (split_dot q) of
           func_name # class_name # parts \<Rightarrow>
             (let parent = getattr_or_none w (getmodule w m) class_name
              in if parent = NoneObj then Inl TypeError else Inr (parent, func_name))
         | _ \<Rightarrow> Inl IndexError)
      else Inr (getmodule w m, n))"
| "get_parent_and_name w _ = Inl TypeError"

section \<open>The wrapper chain\<close>

text \<open>
  The loop shared by \<^verbatim>\<open>_deconstruct_chain\<close> and \<^verbatim>\<open>redecorate\<close>:
  \<^verbatim>\<open>while current: chain.append(current); current = getattr(current, '__wrapped__', None)\<close>.
  The list starts with the attribute itself and ends with the innermost object reached.
\<close>

function walk_chain :: "pyobj \<Rightarrow> pyobj list" where
  "walk_chain current =
     (if truthy current then
        current # (case wrapped_attr current of None \<Rightarrow> [] | Some nxt \<Rightarrow> walk_chain nxt)
      else [])"
  by pat_completeness auto
termination
proof (relation "measure size")
  show "wf (measure (size :: pyobj \<Rightarrow> nat))" by simp
next
  fix current nxt :: pyobj
  assume "wrapped_attr current = Some nxt"
  then have "size nxt < size current"
    by (induction current rule: wrapped_attr.induct) auto
  then show "(nxt, current) \<in> measure size" by simp
qed

text \<open>
  The loop of \<^verbatim>\<open>decorate\<close> that looks for the decorator:
  \<^verbatim>\<open>while hasattr(current_func, '__wrapped__')\<close>, stopping at the first object tagged with it.
\<close>

function already_decorated :: "ident \<Rightarrow> pyobj \<Rightarrow> bool" where
  "already_decorated d current_func =
     (case wrapped_attr current_func of
        None \<Rightarrow> False
      | Some nxt \<Rightarrow>
          (if applied_attr current_func = Some d then True else already_decorated d nxt))"
  by pat_completeness auto
termination
proof (relation "measure (\<lambda>(d, x). size x)")
  show "wf (measure (\<lambda>(d :: ident, x :: pyobj). size x))" by simp
next
  fix d :: ident and current_func nxt :: pyobj
  assume "wrapped_attr current_func = Some nxt"
  then have "size nxt < size current_func"
    by (induction current_func rule: wrapped_attr.induct) auto
  then show "((d, nxt), (d, current_func)) \<in> measure (\<lambda>(d, x). size x)" by simp
qed

section \<open>\<^verbatim>\<open>decorate\<close>\<close>

text \<open>\<^verbatim>\<open>except (TypeError, AttributeError)\<close>: the exceptions the three operations catch.\<close>

fun caught :: "pyerror \<Rightarrow> bool" where
  "caught TypeError = True"
| "caught AttributeError = True"
| "caught IndexError = False"

fun is_staticmethod :: "pyobj \<Rightarrow> bool" where
  "is_staticmethod (StaticMethod f) = True"
| "is_staticmethod _ = False"

fun is_classmethod :: "pyobj \<Rightarrow> bool" where
  "is_classmethod (ClassMethod f) = True"
| "is_classmethod _ = False"

text \<open>
  \<^verbatim>\<open>original_attr.__func__ if (is_staticmethod or is_classmethod) else original_attr\<close>.
\<close>

fun func_to_decorate_of :: "pyobj \<Rightarrow> pyobj" where
  "func_to_decorate_of (StaticMethod f) = f"
| "func_to_decorate_of (ClassMethod f) = f"
| "func_to_decorate_of original_attr = original_attr"

text \<open>
  Re-wrapping in the descriptor of the attribute that was read
  (\<^verbatim>\<open>staticmethod(...)\<close>, \<^verbatim>\<open>classmethod(...)\<close> or the object itself).
\<close>

definition rewrap :: "pyobj \<Rightarrow> pyobj \<Rightarrow> pyobj" where
  "rewrap original_attr f =
     (if is_staticmethod original_attr then StaticMethod f
      else if is_classmethod original_attr then ClassMethod f
      else f)"

text \<open>
  The body of the \<^verbatim>\<open>with _patch_lock\<close> block of \<^verbatim>\<open>decorate\<close> for one target: the
  result appended to \<^verbatim>\<open>results\<close> and the world after it, or the exception raised.
\<close>

definition decorate_target ::
  "ident \<Rightarrow> bool \<Rightarrow> world \<Rightarrow> pyobj \<Rightarrow> pyerror + (bool \<times> world)" where
  "decorate_target decorator decorate_again w func_obj =
     (case get_parent_and_name w func_obj of
        Inl e \<Rightarrow> Inl e
      | Inr (parent, func_name) \<Rightarrow>
     (case getattr_static w parent func_name of
        Inl e \<Rightarrow> Inl e
      | Inr original_attr \<Rightarrow>
          (let func_to_decorate = func_to_decorate_of original_attr;
               already = (if decorate_again then False
                          else already_decorated decorator original_attr)
           in if already then Inr (False, w)
              else
                (let decorated_function = call_decorator w decorator func_to_decorate;
                     decorated_function = update_wrapper decorated_function func_to_decorate;
                     decorated_function = set_applied decorated_function decorator;
                     final_obj = rewrap original_attr decorated_function
                 in case setattr w parent func_name final_obj of
                      Inl e \<Rightarrow> Inl e
                    | Inr w' \<Rightarrow> Inr (True, w')))))"

text \<open>
  The \<^verbatim>\<open>for func_obj in functions\<close> loop with its \<^verbatim>\<open>try\<close>/\<^verbatim>\<open>except\<close>. The result is
  the world when the call ends and either the exception that left the call or the tuple
  of results.
\<close>

fun decorate_loop ::
  "ident \<Rightarrow> bool \<Rightarrow> bool \<Rightarrow> pyobj list \<Rightarrow> bool list \<Rightarrow> world \<Rightarrow> world \<times> (pyerror + bool list)" where
  "decorate_loop decorator decorate_again raise_on_error [] results w = (w, Inr results)"
| "decorate_loop decorator decorate_again raise_on_error (func_obj # functions) results w =
     (case decorate_target decorator decorate_again w func_obj of
        Inr (r, w') \<Rightarrow>
          decorate_loop decorator decorate_again raise_on_error functions (results @ [r]) w'
      | Inl e \<Rightarrow>
          (if caught e then
             (if raise_on_error then (w, Inl e)
              else decorate_loop decorator decorate_again raise_on_error functions
                     (results @ [False]) w)
           else (w, Inl e)))"

definition decorate ::
  "ident \<Rightarrow> pyobj list \<Rightarrow> bool \<Rightarrow> bool \<Rightarrow> world \<Rightarrow> world \<times> (pyerror + bool list)" where
  "decorate decorator functions decorate_again raise_on_error w =
     decorate_loop decorator decorate_again raise_on_error functions [] w"

section \<open>\<^verbatim>\<open>redecorate\<close>\<close>

text \<open>
  An entry of \<^verbatim>\<open>decorators_to_apply\<close>: a decorator, the closure
  \<^verbatim>\<open>lambda f: wrapper\<close> of the \<^verbatim>\<open>for\<close> loop or the closure \<^verbatim>\<open>lambda f: w\<close> of the
  generator expression. A closure refers to its variable, not to the value the variable
  had when the closure was made; it is called only after the loop has ended.
\<close>

datatype applier = Deco ident | LambdaWrapper | LambdaW

record swap_state =
  decorators_to_apply :: "applier list"
  changed_var :: bool
  wrapper_var :: pyobj
  w_var :: pyobj

text \<open>
  \<^verbatim>\<open>getattr(w, '_applied_decorator', lambda f: w) for w in remaining_wrappers\<close>.
\<close>

definition remaining_appliers :: "pyobj list \<Rightarrow> applier list" where
  "remaining_appliers remaining_wrappers =
     map (\<lambda>w. case applied_attr w of None \<Rightarrow> LambdaW | Some d \<Rightarrow> Deco d) remaining_wrappers"

text \<open>
  The loop \<^verbatim>\<open>for wrapper in wrappers\<close>; the third list is what is left to iterate.
\<close>

fun swap_loop ::
  "ident \<Rightarrow> ident \<Rightarrow> bool \<Rightarrow> pyobj list \<Rightarrow> pyobj list \<Rightarrow> swap_state \<Rightarrow> swap_state" where
  "swap_loop deco1 deco2 change_all wrappers [] st = st"
| "swap_loop deco1 deco2 change_all wrappers (wrapper # rest) st =
     (let st = st\<lparr>wrapper_var := wrapper\<rparr>;
          applied_deco = applied_attr wrapper
      in if applied_deco = Some deco1 then
           (let st = st\<lparr>decorators_to_apply := decorators_to_apply st @ [Deco deco2],
                        changed_var := True\<rparr>
            in if change_all then swap_loop deco1 deco2 change_all wrappers rest st
               else
                 (let remaining_wrappers = drop (length (decorators_to_apply st)) wrappers
                  in st\<lparr>decorators_to_apply :=
                          decorators_to_apply st @ remaining_appliers remaining_wrappers,
                        w_var := (if remaining_wrappers = [] then w_var st
                                  else last remaining_wrappers)\<rparr>))
         else
           swap_loop deco1 deco2 change_all wrappers rest
             (st\<lparr>decorators_to_apply := decorators_to_apply st @
                   [case applied_deco of None \<Rightarrow> LambdaWrapper | Some d \<Rightarrow> Deco d]\<rparr>))"

text \<open>\<^verbatim>\<open>deco(rebuilt_func)\<close> for an entry of \<^verbatim>\<open>decorators_to_apply\<close>.\<close>

fun call_applier :: "world \<Rightarrow> swap_state \<Rightarrow> applier \<Rightarrow> pyobj \<Rightarrow> pyobj" where
  "call_applier w st (Deco d) f = call_decorator w d f"
| "call_applier w st LambdaWrapper f = wrapper_var st"
| "call_applier w st LambdaW f = w_var st"

definition redecorate_target ::
  "ident \<Rightarrow> ident \<Rightarrow> bool \<Rightarrow> world \<Rightarrow> pyobj \<Rightarrow> pyerror + (bool \<times> world)" where
  "redecorate_target deco1 deco2 change_all w func_obj =
     (case get_parent_and_name w func_obj of
        Inl e \<Rightarrow> Inl e
      | Inr (parent, func_name) \<Rightarrow>
     (case getattr_static w parent func_name of
        Inl e \<Rightarrow> Inl e
      | Inr original_attr \<Rightarrow>
          (let chain = walk_chain original_attr
           in if length chain \<le> 1 then Inr (False, w)
              else
                (let original_func = last chain;
                     wrappers = rev (butlast chain);
                     st = swap_loop deco1 deco2 change_all wrappers wrappers
                            \<lparr>decorators_to_apply = [], changed_var = False,
                             wrapper_var = NoneObj, w_var = NoneObj\<rparr>
                 in if changed_var st then
                      (let rebuilt_func =
                             foldl (\<lambda>rebuilt_func deco. call_applier w st deco rebuilt_func)
                               original_func (decorators_to_apply st);
                           final_obj = rewrap original_attr rebuilt_func
                       in case setattr w parent func_name final_obj of
                            Inl e \<Rightarrow> Inl e
                          | Inr w' \<Rightarrow> Inr (True, w'))
                    else Inr (False, w)))))"

fun redecorate_loop ::
  "ident \<Rightarrow> ident \<Rightarrow> bool \<Rightarrow> bool \<Rightarrow> pyobj list \<Rightarrow> bool list \<Rightarrow> world
     \<Rightarrow> world \<times> (pyerror + bool list)" where
  "redecorate_loop deco1 deco2 change_all raise_on_error [] results w = (w, Inr results)"
| "redecorate_loop deco1 deco2 change_all raise_on_error (func_obj # functions) results w =
     (case redecorate_target deco1 deco2 change_all w func_obj of
        Inr (r, w') \<Rightarrow>
          redecorate_loop deco1 deco2 change_all raise_on_error functions (results @ [r]) w'
      | Inl e \<Rightarrow>
          (if caught e then
             (if raise_on_error then (w, Inl e)
              else redecorate_loop deco1 deco2 change_all raise_on_error functions
                     (results @ [False]) w)
           else (w, Inl e)))"

definition redecorate ::
  "ident \<Rightarrow> ident \<Rightarrow> pyobj list \<Rightarrow> bool \<Rightarrow> bool \<Rightarrow> world \<Rightarrow> world \<times> (pyerror + bool list)" where
  "redecorate deco1 deco2 functions change_all raise_on_error w =
     redecorate_loop deco1 deco2 change_all raise_on_error functions [] w"

section \<open>\<^verbatim>\<open>_deconstruct_chain\<close> and \<^verbatim>\<open>undecorate\<close>\<close>

record chain_info =
  ci_parent :: pyobj
  ci_func_name :: string
  ci_original_func :: pyobj
  ci_decorators :: "ident option list"
  ci_descriptor_type :: "string option"

definition deconstruct_chain :: "world \<Rightarrow> pyobj \<Rightarrow> pyerror + chain_info" where
  "deconstruct_chain w func_obj =
     (case get_parent_and_name w func_obj of
        Inl e \<Rightarrow> Inl e
      | Inr (parent, func_name) \<Rightarrow>
     (case getattr_static w parent func_name of
        Inl e \<Rightarrow> Inl e
      | Inr original_attr \<Rightarrow>
          (let chain = walk_chain original_attr;
               original_func = (if chain = [] then original_attr else last chain);
               wrappers = rev (butlast chain);
               decorators = map applied_attr wrappers;
               descriptor_type =
                 (if is_staticmethod original_attr then Some ''static''
                  else if is_classmethod original_attr then Some ''class''
                  else None)
           in Inr \<lparr>ci_parent = parent, ci_func_name = func_name,
                    ci_original_func = original_func, ci_decorators = decorators,
                    ci_descriptor_type = descriptor_type\<rparr>)))"

text \<open>
  \<^verbatim>\<open>for i in range(len(new_decorators) - 1, -1, -1)\<close>: the indices below \<open>k\<close> are
  still to be visited, from \<open>k - 1\<close> down; the first match is popped and the loop ends.
\<close>

fun pop_outermost ::
  "ident \<Rightarrow> ident option list \<Rightarrow> nat \<Rightarrow> ident option list \<times> bool" where
  "pop_outermost decorator_to_remove new_decorators 0 = (new_decorators, False)"
| "pop_outermost decorator_to_remove new_decorators (Suc i) =
     (if new_decorators ! i = Some decorator_to_remove
      then (take i new_decorators @ drop (Suc i) new_decorators, True)
      else pop_outermost decorator_to_remove new_decorators i)"

text \<open>
  The three cases of \<^verbatim>\<open>undecorate\<close> on a non-empty list of decorators: the new list
  and the flag \<^verbatim>\<open>changed\<close>.
\<close>

definition select_removal ::
  "ident option \<Rightarrow> bool \<Rightarrow> ident option list \<Rightarrow> ident option list \<times> bool" where
  "select_removal decorator_to_remove if_topmost decorators =
     (case decorator_to_remove of
        None \<Rightarrow> (butlast decorators, True)
      | Some d \<Rightarrow>
          (if if_topmost then
             (if last decorators = Some d then (butlast decorators, True)
              else (decorators, False))
           else pop_outermost d decorators (length decorators)))"

text \<open>
  \<^verbatim>\<open>for deco in new_decorators: if deco: rebuilt_func = deco(rebuilt_func)\<close>.
\<close>

definition rebuild :: "world \<Rightarrow> pyobj \<Rightarrow> ident option list \<Rightarrow> pyobj" where
  "rebuild w original_func new_decorators =
     foldl (\<lambda>rebuilt_func deco.
              case deco of None \<Rightarrow> rebuilt_func | Some d \<Rightarrow> call_decorator w d rebuilt_func)
       original_func new_decorators"

definition undecorate_body ::
  "world \<Rightarrow> pyobj \<Rightarrow> ident option \<Rightarrow> bool \<Rightarrow> pyerror + (bool \<times> world)" where
  "undecorate_body w func decorator_to_remove if_topmost =
     (case deconstruct_chain w func of
        Inl e \<Rightarrow> Inl e
      | Inr chain_info \<Rightarrow>
          (let decorators = ci_decorators chain_info
           in if decorators = [] then Inr (False, w)
              else
                (case select_removal decorator_to_remove if_topmost decorators of
                   (new_decorators, changed) \<Rightarrow>
                     if changed then
                       (let rebuilt_func = rebuild w (ci_original_func chain_info) new_decorators;
                            descriptor = ci_descriptor_type chain_info;
                            final_obj =
                              (if descriptor = Some ''static'' then StaticMethod rebuilt_func
                               else if descriptor = Some ''class'' then ClassMethod rebuilt_func
                               else rebuilt_func)
                        in case setattr w (ci_parent chain_info) (ci_func_name chain_info)
                                  final_obj of
                             Inl e \<Rightarrow> Inl e
                           | Inr w' \<Rightarrow> Inr (True, w'))
                     else Inr (False, w))))"

text \<open>
  The \<^verbatim>\<open>try\<close>/\<^verbatim>\<open>except\<close> around it: the world when the call ends, and the exception
  that left the call or the value returned.
\<close>

definition undecorate ::
  "pyobj \<Rightarrow> ident option \<Rightarrow> bool \<Rightarrow> bool \<Rightarrow> world \<Rightarrow> world \<times> (pyerror + bool)" where
  "undecorate func decorator_to_remove if_topmost raise_on_error w =
     (case undecorate_body w func decorator_to_remove if_topmost of
        Inr (r, w') \<Rightarrow> (w', Inr r)
      | Inl e \<Rightarrow>
          (if caught e then (if raise_on_error then (w, Inl e) else (w, Inr False))
           else (w, Inl e)))"

section \<open>Observing an attribute\<close>

text \<open>
  What a caller gets when it calls the attribute \<open>n\<close> of the class or module \<open>i\<close>.
\<close>

definition call_behaviour :: "world \<Rightarrow> ident \<Rightarrow> string \<Rightarrow> behaviour option" where
  "call_behaviour w i n = map_option code_of (attrs w i n)"

text \<open>
  The number of wrapper layers of an attribute: the objects passed on the way from the
  function under the descriptor to the original, following \<^verbatim>\<open>__wrapped__\<close>.
\<close>

definition chain_length :: "pyobj \<Rightarrow> nat" where
  "chain_length original_attr = length (walk_chain (func_to_decorate_of original_attr)) - 1"

text \<open>
  The class that declares the attribute an instance finds under the name \<open>n\<close>: the first
  class of the method resolution order whose \<^verbatim>\<open>__dict__\<close> has the name.
\<close>

fun declaring_class :: "world \<Rightarrow> ident list \<Rightarrow> string \<Rightarrow> ident option" where
  "declaring_class w [] n = None"
| "declaring_class w (c # cs) n =
     (case attrs w c n of Some v \<Rightarrow> Some c | None \<Rightarrow> declaring_class w cs n)"

text \<open>
  The class a qualified name leads to: the segments before the last, each looked up in
  the object the one before it led to, starting in the module of the function. A segment
  such as \<^verbatim>\<open><locals>\<close> is no attribute, so a class local to a function is not found.
\<close>

fun lookup_path :: "world \<Rightarrow> pyobj \<Rightarrow> string list \<Rightarrow> pyobj option" where
  "lookup_path w scope [] = Some scope"
| "lookup_path w (ModuleObj i) (x # xs) =
     (case attrs w i x of None \<Rightarrow> None | Some v \<Rightarrow> lookup_path w v xs)"
| "lookup_path w (ClassObj c) (x # xs) =
     (case lookup_mro w (c # mro_rest w c) x of None \<Rightarrow> None | Some v \<Rightarrow> lookup_path w v xs)"
| "lookup_path w scope (x # xs) = None"

definition enclosing_class :: "world \<Rightarrow> string \<Rightarrow> string \<Rightarrow> pyobj option" where
  "enclosing_class w m q =
     (case sys_modules w m of
        None \<Rightarrow> None
      | Some i \<Rightarrow> lookup_path w (ModuleObj i) (butlast (split_dot q)))"

section \<open>Loading the package\<close>

text \<open>
  The statements at the top level of a module, with the names each one reads when it is
  executed and the names it binds. A \<^verbatim>\<open>def\<close> evaluates its default values, and, unless
  the interpreter defers annotations (CPython 3.14 does), its annotations.
\<close>

datatype stmt =
    Import string string
  | ImportFrom string "string list"
  | Assign string "string list"
  | Def string "string list" "string list"

text \<open>
  \<^item> \<open>Import m x\<close>: \<^verbatim>\<open>import m\<close>, which binds \<open>x\<close>.
  \<^item> \<open>ImportFrom m names\<close>: \<^verbatim>\<open>from m import names\<close>.
  \<^item> \<open>Assign x reads\<close>: \<^verbatim>\<open>x = e\<close>, where \<open>e\<close> reads the names \<open>reads\<close>.
  \<^item> \<open>Def f defaults annotations\<close>: \<^verbatim>\<open>def f(...)\<close>, with the names read by the default
    values and by the annotations.
\<close>

datatype load_error = NameError string | ImportError string | ModuleNotFoundError string

text \<open>
  What importing a module gives: nothing when there is no such module, the exception its
  top level raises, or the names of its namespace.
\<close>

type_synonym importer = "string \<Rightarrow> (load_error + string list) option"

definition builtin_names :: "string list" where
  "builtin_names = [''bool'', ''dict'', ''str'', ''tuple'']"

fun first_unbound :: "string list \<Rightarrow> string list \<Rightarrow> string option" where
  "first_unbound bound [] = None"
| "first_unbound bound (x # xs) = (if x \<in> set bound then first_unbound bound xs else Some x)"

fun exec_stmt :: "importer \<Rightarrow> bool \<Rightarrow> string list \<Rightarrow> stmt \<Rightarrow> load_error + string list" where
  "exec_stmt imp eager bound (Import m x) =
     (case imp m of
        None \<Rightarrow> Inl (ModuleNotFoundError m)
      | Some (Inl e) \<Rightarrow> Inl e
      | Some (Inr names) \<Rightarrow> Inr (x # bound))"
| "exec_stmt imp eager bound (ImportFrom m xs) =
     (case imp m of
        None \<Rightarrow> Inl (ModuleNotFoundError m)
      | Some (Inl e) \<Rightarrow> Inl e
      | Some (Inr names) \<Rightarrow>
          (case first_unbound names xs of
             Some x \<Rightarrow> Inl (ImportError x)
           | None \<Rightarrow> Inr (xs @ bound)))"
| "exec_stmt imp eager bound (Assign x reads) =
     (case first_unbound (builtin_names @ bound) reads of
        Some y \<Rightarrow> Inl (NameError y)
      | None \<Rightarrow> Inr (x # bound))"
| "exec_stmt imp eager bound (Def f defaults annotations) =
     (case first_unbound (builtin_names @ bound)
             (defaults @ (if eager then annotations else [])) of
        Some y \<Rightarrow> Inl (NameError y)
      | None \<Rightarrow> Inr (f # bound))"

fun exec_module :: "importer \<Rightarrow> bool \<Rightarrow> string list \<Rightarrow> stmt list \<Rightarrow> load_error + string list" where
  "exec_module imp eager bound [] = Inr bound"
| "exec_module imp eager bound (s # ss) =
     (case exec_stmt imp eager bound s of
        Inl e \<Rightarrow> Inl e
      | Inr bound' \<Rightarrow> exec_module imp eager bound' ss)"

text \<open>The names a statement can bind.\<close>

fun binds :: "stmt \<Rightarrow> string list" where
  "binds (Import m x) = [x]"
| "binds (ImportFrom m xs) = xs"
| "binds (Assign x reads) = [x]"
| "binds (Def f defaults annotations) = [f]"

text \<open>
  The top level of \<^verbatim>\<open>draping/draping.py\<close>: lines 1 to 6 and the five \<^verbatim>\<open>def\<close>
  statements with the names of their signatures. All default values are constants.
\<close>

definition draping_py :: "stmt list" where
  "draping_py =
     [Import ''functools'' ''functools'',
      Import ''inspect'' ''inspect'',
      Import ''threading'' ''threading'',
      ImportFrom ''typing'' [''Any'', ''Callable'', ''List'', ''Tuple''],
      Assign ''_patch_lock'' [''threading''],
      Def ''_get_parent_and_name'' [] [''Callable'', ''tuple'', ''Any'', ''str''],
      Def ''_deconstruct_chain'' [] [''Callable'', ''dict''],
      Def ''decorate'' [] [''Callable'', ''Callable'', ''bool'', ''bool'', ''tuple'', ''bool''],
      Def ''redecorate'' []
        [''Callable'', ''Callable'', ''Callable'', ''bool'', ''bool'', ''tuple'', ''bool''],
      Def ''undecorate'' []
        [''Callable'', ''Optional'', ''Callable'', ''bool'', ''bool'', ''bool'']]"

text \<open>The top level of \<^verbatim>\<open>draping/__init__.py\<close>.\<close>

definition init_py :: "stmt list" where
  "init_py =
     [Import ''importlib.metadata'' ''importlib'',
      ImportFrom ''.draping''
        [''decorate'', ''redecorate'', ''undecorate'', ''start_with'', ''not_start_with'',
         ''contains'', ''not_contains'', ''positive_re'', ''negative_re''],
      Assign ''_metadata'' [''importlib''],
      Assign ''__version__'' [''_metadata''],
      Assign ''__author__'' [''_metadata''],
      Assign ''__license__'' [''_metadata''],
      Assign ''__all__'' []]"

text \<open>
  The modules of the standard library the two files import; of \<^verbatim>\<open>typing\<close>, the names
  that matter here.
\<close>

definition stdlib :: importer where
  "stdlib m =
     (if m = ''typing'' then Some (Inr [''Any'', ''Callable'', ''List'', ''Optional'', ''Tuple''])
      else if m \<in> set [''functools'', ''inspect'', ''threading'', ''importlib.metadata'']
      then Some (Inr [])
      else None)"

text \<open>Inside the package, \<^verbatim>\<open>.draping\<close> is the module \<^verbatim>\<open>draping/draping.py\<close>.\<close>

definition package_importer :: "bool \<Rightarrow> importer" where
  "package_importer eager m =
     (if m = ''.draping'' then Some (exec_module stdlib eager [] draping_py) else stdlib m)"

text \<open>\<^verbatim>\<open>import draping\<close>.\<close>

definition import_draping :: "bool \<Rightarrow> load_error + string list" where
  "import_draping eager = exec_module (package_importer eager) eager [] init_py"

section \<open>A program to run the operations on\<close>

text \<open>
  A module \<^verbatim>\<open>app\<close> with a function \<^verbatim>\<open>f\<close> and a class \<^verbatim>\<open>C\<close> that has a static method
  \<^verbatim>\<open>s\<close>, a class method \<^verbatim>\<open>k\<close> and a method \<^verbatim>\<open>m\<close>; a class \<^verbatim>\<open>D(C)\<close> that
  inherits them. The decorators 1, 2 and 9 use \<^verbatim>\<open>functools.wraps\<close>; the others return
  a bare closure.
\<close>

definition app_f :: pyobj where
  "app_f = Function ''f'' ''f'' ''app'' None None (Body ''f'')"

definition app_s :: pyobj where
  "app_s = Function ''s'' ''C.s'' ''app'' None None (Body ''C.s'')"

definition app_k :: pyobj where
  "app_k = Function ''k'' ''C.k'' ''app'' None None (Body ''C.k'')"

definition app_m :: pyobj where
  "app_m = Function ''m'' ''C.m'' ''app'' None None (Body ''C.m'')"

definition app_decorators :: "ident \<Rightarrow> decorator" where
  "app_decorators d =
     \<lparr>uses_wraps = (d = 1 \<or> d = 2 \<or> d = 9), wrapper_name = ''wrapper'',
      wrapper_qualname = ''deco.<locals>.wrapper'', wrapper_module = ''decos''\<rparr>"

definition app_world :: world where
  "app_world =
     \<lparr>sys_modules = [''app'' \<mapsto> 0],
      attrs = (\<lambda>i. Map.empty)
        (0 := [''f'' \<mapsto> app_f, ''C'' \<mapsto> ClassObj 5, ''D'' \<mapsto> ClassObj 6],
         5 := [''s'' \<mapsto> StaticMethod app_s, ''k'' \<mapsto> ClassMethod app_k, ''m'' \<mapsto> app_m]),
      mro_rest = (\<lambda>i. if i = 6 then [5] else []),
      deco_table = app_decorators\<rparr>"

text \<open>
  The same program with \<^verbatim>\<open>f\<close> defined under decorator 9 with the \<^verbatim>\<open>@\<close> syntax: the
  attribute is a wrapper with \<^verbatim>\<open>__wrapped__\<close> and no \<^verbatim>\<open>_applied_decorator\<close>.
\<close>

definition app_f_wrapped :: pyobj where
  "app_f_wrapped = Function ''f'' ''f'' ''app'' (Some app_f) None (Applied 9 (Body ''f''))"

definition anon_world :: world where
  "anon_world = app_world\<lparr>attrs := (attrs app_world)
                   (0 := (attrs app_world 0)(''f'' \<mapsto> app_f_wrapped))\<rparr>"

text \<open>A function whose module is not loaded: no target can be found for it.\<close>

definition lost_g :: pyobj where
  "lost_g = Function ''g'' ''g'' ''gone'' None None (Body ''g'')"

text \<open>
  The same program with a function \<^verbatim>\<open>make\<close> that defines a class \<^verbatim>\<open>C\<close> of its own;
  \<open>local_m\<close> is the method \<^verbatim>\<open>m\<close> of that local class.
\<close>

definition app_make :: pyobj where
  "app_make = Function ''make'' ''make'' ''app'' None None (Body ''make'')"

definition local_m :: pyobj where
  "local_m = Function ''m'' ''make.<locals>.C.m'' ''app'' None None (Body ''make.<locals>.C.m'')"

definition local_world :: world where
  "local_world = app_world\<lparr>attrs := (attrs app_world)
                    (0 := (attrs app_world 0)(''make'' \<mapsto> app_make))\<rparr>"

text \<open>
  The program after \<^verbatim>\<open>decorate(1, f)\<close>, after \<^verbatim>\<open>decorate(1, f)\<close> and
  \<^verbatim>\<open>decorate(1, C.s)\<close>, and after \<^verbatim>\<open>decorate(1, f)\<close> and \<^verbatim>\<open>redecorate(1, 2, f)\<close>,
  written out.
\<close>

definition app_f_1 :: pyobj where
  "app_f_1 = Function ''f'' ''f'' ''app'' (Some app_f) (Some 1) (Applied 1 (Body ''f''))"

definition app_world_f :: world where
  "app_world_f = app_world\<lparr>attrs := (attrs app_world)
                    (0 := (attrs app_world 0)(''f'' \<mapsto> app_f_1))\<rparr>"

definition app_s_1 :: pyobj where
  "app_s_1 = Function ''s'' ''C.s'' ''app'' (Some app_s) (Some 1) (Applied 1 (Body ''C.s''))"

definition app_world_f_s :: world where
  "app_world_f_s = app_world_f\<lparr>attrs := (attrs app_world_f)
                    (5 := (attrs app_world_f 5)(''s'' \<mapsto> StaticMethod app_s_1))\<rparr>"

definition app_f_2 :: pyobj where
  "app_f_2 = Function ''f'' ''f'' ''app'' (Some app_f) None (Applied 2 (Body ''f''))"

definition app_world_f2 :: world where
  "app_world_f2 = app_world_f\<lparr>attrs := (attrs app_world_f)
                    (0 := (attrs app_world_f 0)(''f'' \<mapsto> app_f_2))\<rparr>"

section \<open>Properties of the model\<close>

subsection \<open>Decorator calls and attribute writes\<close>

lemma call_decorator_Function:
  "\<exists>n q m wr ap. call_decorator w d f = Function n q m wr ap (Applied d (code_of f))"
  by (simp add: call_decorator_def Let_def split: option.splits prod.splits)

text \<open>
  The object \<^verbatim>\<open>decorate\<close> builds for a layer: it refers to the callable it wraps and
  records the decorator.
\<close>

lemma decorated_shape:
  "\<exists>n q m. set_applied (update_wrapper (call_decorator w d g) g) d
     = Function n q m (Some g) (Some d) (Applied d (code_of g))"
proof -
  obtain n q m wr ap where "call_decorator w d g = Function n q m wr ap (Applied d (code_of g))"
    using call_decorator_Function by blast
  then show ?thesis
    by (simp add: Let_def split: option.splits prod.splits)
qed

lemma setattr_after_getattr_static:
  assumes "getattr_static w p n = Inr a"
  shows "\<exists>w'. setattr w p n v = Inr w' \<and> getattr_static w' p n = Inr v"
  using assms by (cases p) (auto split: option.splits)

lemma already_decorated_rewrap:
  assumes "x = Function n q m (Some g) (Some d) c"
  shows "already_decorated d (rewrap a x)"
  using assms by (cases a) (simp_all add: rewrap_def)

lemma walk_chain_Function:
  "walk_chain (Function n q m (Some g) ap c) = Function n q m (Some g) ap c # walk_chain g"
  by simp

lemma chain_length_rewrap:
  assumes "x = Function n q m (Some g) ap c" and "g = func_to_decorate_of a" and "truthy g"
  shows "chain_length (rewrap a x) = chain_length a + 1"
proof -
  have "func_to_decorate_of (rewrap a x) = x"
    using assms(1) by (cases a) (simp_all add: rewrap_def)
  moreover have "walk_chain g \<noteq> []" using assms(3) by simp
  ultimately show ?thesis
    using assms(1,2)
    by (simp add: chain_length_def del: walk_chain.simps add: walk_chain_Function)
qed

subsection \<open>One target\<close>

lemma decorate_target_resolved:
  assumes "get_parent_and_name w f = Inr (p, n)" and "getattr_static w p n = Inr a"
  shows "decorate_target T again w f =
     (if \<not> again \<and> already_decorated T a then Inr (False, w)
      else (case setattr w p n
                   (rewrap a (set_applied (update_wrapper
                      (call_decorator w T (func_to_decorate_of a)) (func_to_decorate_of a)) T)) of
              Inl e \<Rightarrow> Inl e | Inr w' \<Rightarrow> Inr (True, w')))"
  using assms by (simp add: decorate_target_def Let_def)

lemma decorate_singleton:
  "decorate T [f] again roe w =
     (case decorate_target T again w f of
        Inr (r, w') \<Rightarrow> (w', Inr [r])
      | Inl e \<Rightarrow> if caught e then (if roe then (w, Inl e) else (w, Inr [False])) else (w, Inl e))"
  by (simp add: decorate_def split: sum.splits prod.splits)

subsection \<open>The exceptions that can arise\<close>

lemma split_dot_nonempty: "split_dot s \<noteq> []"
  by (induction s) (auto split: list.splits)

lemma length_split_dot: "CHR ''.'' \<in> set s \<Longrightarrow> 2 \<le> length (split_dot s)"
proof (induction s)
  case Nil
  then show ?case by simp
next
  case (Cons c cs)
  obtain p ps where ps: "split_dot cs = p # ps"
    using split_dot_nonempty [of cs] by (cases "split_dot cs") auto
  show ?case
  proof (cases "c = CHR ''.''")
    case True
    with ps show ?thesis by simp
  next
    case False
    with Cons have "2 \<le> length (split_dot cs)" by simp
    with False ps show ?thesis by simp
  qed
qed

lemma split_dot_two: "CHR ''.'' \<in> set s \<Longrightarrow> \<exists>a b ps. rev (split_dot s) = a # b # ps"
proof -
  assume "CHR ''.'' \<in> set s"
  then have "2 \<le> length (rev (split_dot s))" using length_split_dot by simp
  then show ?thesis
    by (cases "rev (split_dot s)" rule: remdups_adj.cases) simp_all
qed

lemma split_dot_no_dot: "CHR ''.'' \<notin> set s \<Longrightarrow> split_dot s = [s]"
  by (induction s) auto

lemma split_dot_append_dot:
  "CHR ''.'' \<notin> set a \<Longrightarrow> split_dot (a @ CHR ''.'' # b) = a # split_dot b"
  by (induction a) auto

text \<open>
  The two \<^verbatim>\<open>pop()\<close> of \<^verbatim>\<open>_get_parent_and_name\<close> never fail, so every exception of the
  three operations is one their \<^verbatim>\<open>except\<close> clause catches.
\<close>

lemma get_parent_and_name_caught:
  "get_parent_and_name w f = Inl e \<Longrightarrow> caught e"
proof (cases f)
  case (Function n q m wr ap c)
  assume "get_parent_and_name w f = Inl e"
  with Function show ?thesis
    using split_dot_two [of q]
    by (auto simp: Let_def split: if_splits list.splits)
qed (auto split: option.splits)

lemma getattr_static_caught: "getattr_static w p n = Inl e \<Longrightarrow> caught e"
  by (cases p) (auto split: option.splits)

lemma setattr_caught: "setattr w p n v = Inl e \<Longrightarrow> caught e"
  by (cases p) auto

lemma decorate_target_caught: "decorate_target T again w f = Inl e \<Longrightarrow> caught e"
  by (auto simp: decorate_target_def Let_def split: sum.splits prod.splits if_splits
           dest: get_parent_and_name_caught getattr_static_caught setattr_caught)

lemma redecorate_target_caught: "redecorate_target d1 d2 ca w f = Inl e \<Longrightarrow> caught e"
  by (auto simp: redecorate_target_def Let_def split: sum.splits prod.splits if_splits
           dest: get_parent_and_name_caught getattr_static_caught setattr_caught)

subsection \<open>The loops over the targets\<close>

text \<open>
  Both loops have the same shape: a function \<open>L\<close> of the targets left, the results so
  far and the world, built on a step for one target. The targets \<open>fs\<close> are given with
  the world each one leaves (\<open>ws\<close>) and its result (\<open>rs\<close>).
\<close>

lemma loop_committed_prefix:
  fixes L :: "pyobj list \<Rightarrow> bool list \<Rightarrow> world \<Rightarrow> world \<times> (pyerror + bool list)"
  assumes cons: "\<And>f fs acc w. L (f # fs) acc w =
            (case step w f of
               Inr (r, w') \<Rightarrow> L fs (acc @ [r]) w'
             | Inl e \<Rightarrow> (if caught e then (if roe then (w, Inl e) else L fs (acc @ [False]) w)
                         else (w, Inl e)))"
  shows "length ws = length fs \<Longrightarrow> length rs = length fs \<Longrightarrow>
         \<forall>i<length fs. step ((w # ws) ! i) (fs ! i) = Inr (rs ! i, ws ! i) \<Longrightarrow>
         L (fs @ rest) acc w = L rest (acc @ rs) (last (w # ws))"
proof (induction fs arbitrary: ws rs w acc)
  case Nil
  then show ?case by simp
next
  case (Cons f fs)
  from Cons.prems(1,2) obtain w1 ws' r rs' where s: "ws = w1 # ws'" "rs = r # rs'"
    by (cases ws; cases rs) auto
  from Cons.prems(3) have "step ((w # ws) ! 0) ((f # fs) ! 0) = Inr (rs ! 0, ws ! 0)"
    by blast
  then have first: "step w f = Inr (r, w1)" using s by simp
  have rest: "\<forall>i<length fs. step ((w1 # ws') ! i) (fs ! i) = Inr (rs' ! i, ws' ! i)"
  proof (intro allI impI)
    fix i assume "i < length fs"
    then have "Suc i < length (f # fs)" by simp
    with Cons.prems(3)
    have "step ((w # ws) ! Suc i) ((f # fs) ! Suc i) = Inr (rs ! Suc i, ws ! Suc i)"
      by blast
    then show "step ((w1 # ws') ! i) (fs ! i) = Inr (rs' ! i, ws' ! i)" using s by simp
  qed
  have "L (fs @ rest) (acc @ [r]) w1 = L rest ((acc @ [r]) @ rs') (last (w1 # ws'))"
    using Cons.prems(1,2) s by (intro Cons.IH rest) simp_all
  then show ?case using first s by (simp add: cons)
qed

lemma loop_outcomes:
  fixes L :: "pyobj list \<Rightarrow> bool list \<Rightarrow> world \<Rightarrow> world \<times> (pyerror + bool list)"
  assumes nil: "\<And>acc w. L [] acc w = (w, Inr acc)"
      and cons: "\<And>f fs acc w. L (f # fs) acc w =
            (case step w f of
               Inr (r, w') \<Rightarrow> L fs (acc @ [r]) w'
             | Inl e \<Rightarrow> (if caught e then L fs (acc @ [False]) w else (w, Inl e)))"
      and caught: "\<And>w f e. step w f = Inl e \<Longrightarrow> caught e"
  shows "length us = length hs \<Longrightarrow> length bs = length hs \<Longrightarrow>
         \<forall>i<length hs.
            (case step ((w # us) ! i) (hs ! i) of
               Inr (r, w') \<Rightarrow> bs ! i = r \<and> us ! i = w'
             | Inl e \<Rightarrow> bs ! i = False \<and> us ! i = (w # us) ! i) \<Longrightarrow>
         L hs acc w = (last (w # us), Inr (acc @ bs))"
proof (induction hs arbitrary: us bs w acc)
  case Nil
  then show ?case by (simp add: nil)
next
  case (Cons h hs)
  from Cons.prems(1,2) obtain u1 us' b bs' where s: "us = u1 # us'" "bs = b # bs'"
    by (cases us; cases bs) auto
  from Cons.prems(3)
  have "case step ((w # us) ! 0) ((h # hs) ! 0) of
          Inr (r, w') \<Rightarrow> bs ! 0 = r \<and> us ! 0 = w'
        | Inl e \<Rightarrow> bs ! 0 = False \<and> us ! 0 = (w # us) ! 0"
    by blast
  then have first: "case step w h of Inr (r, w') \<Rightarrow> b = r \<and> u1 = w'
                    | Inl e \<Rightarrow> b = False \<and> u1 = w"
    using s by (auto split: sum.splits prod.splits)
  have rest: "\<forall>i<length hs.
            (case step ((u1 # us') ! i) (hs ! i) of
               Inr (r, w') \<Rightarrow> bs' ! i = r \<and> us' ! i = w'
             | Inl e \<Rightarrow> bs' ! i = False \<and> us' ! i = (u1 # us') ! i)"
  proof (intro allI impI)
    fix i assume "i < length hs"
    then have "Suc i < length (h # hs)" by simp
    with Cons.prems(3)
    have "case step ((w # us) ! Suc i) ((h # hs) ! Suc i) of
            Inr (r, w') \<Rightarrow> bs ! Suc i = r \<and> us ! Suc i = w'
          | Inl e \<Rightarrow> bs ! Suc i = False \<and> us ! Suc i = (w # us) ! Suc i"
      by blast
    then show "case step ((u1 # us') ! i) (hs ! i) of
               Inr (r, w') \<Rightarrow> bs' ! i = r \<and> us' ! i = w'
             | Inl e \<Rightarrow> bs' ! i = False \<and> us' ! i = (u1 # us') ! i"
      using s by (auto split: sum.splits prod.splits)
  qed
  have ih: "L hs (acc @ [b]) u1 = (last (u1 # us'), Inr ((acc @ [b]) @ bs'))"
    using Cons.prems(1,2) s by (intro Cons.IH rest) simp_all
  show ?case
  proof (cases "step w h")
    case (Inl e)
    with first caught [OF Inl] ih s show ?thesis by (simp add: cons)
  next
    case (Inr rw)
    with first ih s show ?thesis by (cases rw) (auto simp: cons)
  qed
qed

lemma outcomes_exist:
  "\<exists>us bs. length us = length hs \<and> length bs = length hs \<and>
     (\<forall>i<length hs.
        (case step ((w # us) ! i) (hs ! i) of
           Inr (r, w') \<Rightarrow> bs ! i = r \<and> us ! i = w'
         | Inl e \<Rightarrow> bs ! i = False \<and> us ! i = (w # us) ! i))"
proof (induction hs arbitrary: w)
  case Nil
  show ?case by simp
next
  case (Cons h hs)
  define b u1 where "b = (case step w h of Inr (r, w') \<Rightarrow> r | Inl e \<Rightarrow> False)"
    and "u1 = (case step w h of Inr (r, w') \<Rightarrow> w' | Inl e \<Rightarrow> w)"
  obtain us bs where t: "length us = length hs" "length bs = length hs"
     "\<forall>i<length hs.
        (case step ((u1 # us) ! i) (hs ! i) of
           Inr (r, w') \<Rightarrow> bs ! i = r \<and> us ! i = w'
         | Inl e \<Rightarrow> bs ! i = False \<and> us ! i = (u1 # us) ! i)"
    using Cons.IH [of u1] by blast
  have "\<forall>i<length (h # hs).
        (case step ((w # u1 # us) ! i) ((h # hs) ! i) of
           Inr (r, w') \<Rightarrow> (b # bs) ! i = r \<and> (u1 # us) ! i = w'
         | Inl e \<Rightarrow> (b # bs) ! i = False \<and> (u1 # us) ! i = (w # u1 # us) ! i)"
  proof (intro allI impI)
    fix i assume "i < length (h # hs)"
    show "case step ((w # u1 # us) ! i) ((h # hs) ! i) of
           Inr (r, w') \<Rightarrow> (b # bs) ! i = r \<and> (u1 # us) ! i = w'
         | Inl e \<Rightarrow> (b # bs) ! i = False \<and> (u1 # us) ! i = (w # u1 # us) ! i"
    proof (cases i)
      case 0
      then show ?thesis by (simp add: b_def u1_def split: sum.splits prod.splits)
    next
      case (Suc j)
      with \<open>i < length (h # hs)\<close> have "j < length hs" by simp
      with t(3) have "case step ((u1 # us) ! j) (hs ! j) of
           Inr (r, w') \<Rightarrow> bs ! j = r \<and> us ! j = w'
         | Inl e \<Rightarrow> bs ! j = False \<and> us ! j = (u1 # us) ! j"
        by blast
      with Suc show ?thesis by (auto split: sum.splits prod.splits)
    qed
  qed
  with t(1,2) show ?case
    by (intro exI [of _ "u1 # us"] exI [of _ "b # bs"]) simp
qed

text \<open>
  The targets \<open>fs\<close> commit one after the other, each in the world the one before it
  left; then \<open>g\<close> fails.
\<close>

lemma decorate_batch_trace:
  assumes len: "length ws = length fs" "length rs = length fs"
      and committed: "\<forall>i<length fs.
              decorate_target T again ((w # ws) ! i) (fs ! i) = Inr (rs ! i, ws ! i)"
      and fails: "decorate_target T again (last (w # ws)) g = Inl e"
  shows "decorate T (fs @ g # hs) again True w = (last (w # ws), Inl e)"
    and "\<exists>us bs. length us = length hs \<and> length bs = length hs
           \<and> (\<forall>i<length hs.
                 (case decorate_target T again ((last (w # ws) # us) ! i) (hs ! i) of
                    Inr (r, w') \<Rightarrow> bs ! i = r \<and> us ! i = w'
                  | Inl e' \<Rightarrow> bs ! i = False \<and> us ! i = (last (w # ws) # us) ! i))
           \<and> decorate T (fs @ g # hs) again False w
               = (last (last (w # ws) # us), Inr (rs @ False # bs))"
proof -
  have c: "caught e" using fails by (rule decorate_target_caught)
  have pre: "decorate_loop T again roe (fs @ g # hs) [] w
               = decorate_loop T again roe (g # hs) ([] @ rs) (last (w # ws))" for roe
    using len committed
    by (rule loop_committed_prefix [where step = "decorate_target T again" and roe = roe,
                                     rotated]) simp
  show "decorate T (fs @ g # hs) again True w = (last (w # ws), Inl e)"
    using pre [of True] fails c by (simp add: decorate_def)
  obtain us bs where t: "length us = length hs" "length bs = length hs"
      "\<forall>i<length hs.
         (case decorate_target T again ((last (w # ws) # us) ! i) (hs ! i) of
            Inr (r, w') \<Rightarrow> bs ! i = r \<and> us ! i = w'
          | Inl e' \<Rightarrow> bs ! i = False \<and> us ! i = (last (w # ws) # us) ! i)"
    using outcomes_exist [where hs = hs and step = "decorate_target T again"
                             and w = "last (w # ws)"] by blast
  have "decorate_loop T again False hs (rs @ [False]) (last (w # ws))
          = (last (last (w # ws) # us), Inr ((rs @ [False]) @ bs))"
    using t
    by (intro loop_outcomes [where step = "decorate_target T again"])
       (simp_all add: decorate_target_caught split: sum.splits prod.splits)
  then have "decorate T (fs @ g # hs) again False w
               = (last (last (w # ws) # us), Inr (rs @ False # bs))"
    using pre [of False] fails c by (simp add: decorate_def)
  with t show "\<exists>us bs. length us = length hs \<and> length bs = length hs
           \<and> (\<forall>i<length hs.
                 (case decorate_target T again ((last (w # ws) # us) ! i) (hs ! i) of
                    Inr (r, w') \<Rightarrow> bs ! i = r \<and> us ! i = w'
                  | Inl e' \<Rightarrow> bs ! i = False \<and> us ! i = (last (w # ws) # us) ! i))
           \<and> decorate T (fs @ g # hs) again False w
               = (last (last (w # ws) # us), Inr (rs @ False # bs))"
    by blast
qed

lemma redecorate_batch_trace:
  assumes len: "length ws = length fs" "length rs = length fs"
      and committed: "\<forall>i<length fs.
              redecorate_target d1 d2 ca ((w # ws) ! i) (fs ! i) = Inr (rs ! i, ws ! i)"
      and fails: "redecorate_target d1 d2 ca (last (w # ws)) g = Inl e"
  shows "redecorate d1 d2 (fs @ g # hs) ca True w = (last (w # ws), Inl e)"
    and "\<exists>us bs. length us = length hs \<and> length bs = length hs
           \<and> (\<forall>i<length hs.
                 (case redecorate_target d1 d2 ca ((last (w # ws) # us) ! i) (hs ! i) of
                    Inr (r, w') \<Rightarrow> bs ! i = r \<and> us ! i = w'
                  | Inl e' \<Rightarrow> bs ! i = False \<and> us ! i = (last (w # ws) # us) ! i))
           \<and> redecorate d1 d2 (fs @ g # hs) ca False w
               = (last (last (w # ws) # us), Inr (rs @ False # bs))"
proof -
  have c: "caught e" using fails by (rule redecorate_target_caught)
  have pre: "redecorate_loop d1 d2 ca roe (fs @ g # hs) [] w
               = redecorate_loop d1 d2 ca roe (g # hs) ([] @ rs) (last (w # ws))" for roe
    using len committed
    by (rule loop_committed_prefix [where step = "redecorate_target d1 d2 ca" and roe = roe,
                                     rotated]) simp
  show "redecorate d1 d2 (fs @ g # hs) ca True w = (last (w # ws), Inl e)"
    using pre [of True] fails c by (simp add: redecorate_def)
  obtain us bs where t: "length us = length hs" "length bs = length hs"
      "\<forall>i<length hs.
         (case redecorate_target d1 d2 ca ((last (w # ws) # us) ! i) (hs ! i) of
            Inr (r, w') \<Rightarrow> bs ! i = r \<and> us ! i = w'
          | Inl e' \<Rightarrow> bs ! i = False \<and> us ! i = (last (w # ws) # us) ! i)"
    using outcomes_exist [where hs = hs and step = "redecorate_target d1 d2 ca"
                             and w = "last (w # ws)"] by blast
  have "redecorate_loop d1 d2 ca False hs (rs @ [False]) (last (w # ws))
          = (last (last (w # ws) # us), Inr ((rs @ [False]) @ bs))"
    using t
    by (intro loop_outcomes [where step = "redecorate_target d1 d2 ca"])
       (simp_all add: redecorate_target_caught split: sum.splits prod.splits)
  then have "redecorate d1 d2 (fs @ g # hs) ca False w
               = (last (last (w # ws) # us), Inr (rs @ False # bs))"
    using pre [of False] fails c by (simp add: redecorate_def)
  with t show "\<exists>us bs. length us = length hs \<and> length bs = length hs
           \<and> (\<forall>i<length hs.
                 (case redecorate_target d1 d2 ca ((last (w # ws) # us) ! i) (hs ! i) of
                    Inr (r, w') \<Rightarrow> bs ! i = r \<and> us ! i = w'
                  | Inl e' \<Rightarrow> bs ! i = False \<and> us ! i = (last (w # ws) # us) ! i))
           \<and> redecorate d1 d2 (fs @ g # hs) ca False w
               = (last (last (w # ws) # us), Inr (rs @ False # bs))"
    by blast
qed

subsection \<open>Finding a recorded decorator\<close>

lemma walk_chain_unfold:
  "walk_chain current =
     (if truthy current then
        current # (case wrapped_attr current of None \<Rightarrow> [] | Some nxt \<Rightarrow> walk_chain nxt)
      else [])"
  by (rule walk_chain.simps)

text \<open>
  The loop of \<^verbatim>\<open>decorate\<close> finds a decorator recorded on any object of the chain that
  has \<^verbatim>\<open>__wrapped__\<close>, at whatever depth.
\<close>

lemma already_decorated_anywhere:
  "x \<in> set (walk_chain a) \<Longrightarrow> wrapped_attr x \<noteq> None \<Longrightarrow> applied_attr x = Some T
     \<Longrightarrow> already_decorated T a"
proof (induction a rule: walk_chain.induct)
  case (1 current)
  from "1.prems"(1) have t: "truthy current"
    by (subst (asm) walk_chain_unfold) (simp split: if_splits del: walk_chain.simps)
  show ?case
  proof (cases "x = current")
    case True
    with "1.prems"(2,3) show ?thesis
      by (subst already_decorated.simps) (auto simp del: already_decorated.simps)
  next
    case False
    from "1.prems"(1) t False
    have "x \<in> set (case wrapped_attr current of None \<Rightarrow> [] | Some nxt \<Rightarrow> walk_chain nxt)"
      by (subst (asm) walk_chain_unfold) (simp del: walk_chain.simps)
    then obtain nxt where nxt: "wrapped_attr current = Some nxt" "x \<in> set (walk_chain nxt)"
      by (cases "wrapped_attr current") (simp_all del: walk_chain.simps)
    have "already_decorated T nxt"
      using "1.IH" [OF t nxt(1) nxt(2) "1.prems"(2,3)] .
    with nxt(1) show ?thesis
      by (subst already_decorated.simps) (simp del: already_decorated.simps)
  qed
qed

lemma decorate_refuses_recorded_decorator:
  assumes "get_parent_and_name w f = Inr (p, n)" and "getattr_static w p n = Inr a"
      and "x \<in> set (walk_chain a)" and "wrapped_attr x \<noteq> None" and "applied_attr x = Some T"
  shows "decorate T [f] False roe w = (w, Inr [False])"
proof -
  have "already_decorated T a"
    using assms(3-5) by (rule already_decorated_anywhere)
  with assms(1,2) show ?thesis
    by (simp add: decorate_singleton decorate_target_resolved
             del: walk_chain.simps already_decorated.simps)
qed

subsection \<open>Functions that are not wrapped\<close>

lemma deconstruct_chain_resolved:
  assumes "get_parent_and_name w f = Inr (p, n)" and "getattr_static w p n = Inr a"
  shows "deconstruct_chain w f =
     Inr \<lparr>ci_parent = p, ci_func_name = n,
          ci_original_func = (if walk_chain a = [] then a else last (walk_chain a)),
          ci_decorators = map applied_attr (rev (butlast (walk_chain a))),
          ci_descriptor_type = (if is_staticmethod a then Some ''static''
                                else if is_classmethod a then Some ''class'' else None)\<rparr>"
  using assms by (simp add: deconstruct_chain_def Let_def del: walk_chain.simps)

text \<open>
  On a function that has no \<^verbatim>\<open>__wrapped__\<close>, found as it is under the name,
  \<^verbatim>\<open>undecorate\<close> returns \<^verbatim>\<open>False\<close> and writes nothing.
\<close>

lemma undecorate_undecorated_function:
  assumes "get_parent_and_name w f = Inr (p, n)"
      and "getattr_static w p n = Inr (Function nm q m None ap c)"
  shows "undecorate f d if_topmost roe w = (w, Inr False)"
  using assms
  by (simp add: undecorate_def undecorate_body_def deconstruct_chain_resolved)

lemma setattr_same:
  assumes "setattr w p n v = Inr w'" and "setattr w' p n v' = Inr w''"
  shows "setattr w p n v' = Inr w''"
  using assms by (cases p) auto

lemma setattr_total:
  assumes "getattr_static w p n = Inr a"
  shows "\<exists>w'. setattr w p n v = Inr w'"
  using assms by (cases p) (auto split: option.splits)

text \<open>
  \<^verbatim>\<open>decorate\<close> and then \<^verbatim>\<open>undecorate\<close> on a function that had no \<^verbatim>\<open>__wrapped__\<close>:
  the attribute is the function again, in the \<^verbatim>\<open>__dict__\<close> of the container itself.
\<close>

lemma decorate_undecorate_function:
  assumes target: "get_parent_and_name w f = Inr (p, n)"
      and attr: "getattr_static w p n = Inr a" and plain: "a = Function nm q m None ap c"
      and first: "decorate T [f] again roe w = (w1, Inr [True])"
      and target': "get_parent_and_name w1 f' = Inr (p, n)"
  shows "\<exists>w2. undecorate f' None False roe' w1 = (w2, Inr True) \<and> setattr w p n a = Inr w2"
proof -
  obtain n' q' m' where x: "set_applied (update_wrapper (call_decorator w T a) a) T
      = Function n' q' m' (Some a) (Some T) (Applied T (code_of a))"
    using decorated_shape by blast
  let ?x = "Function n' q' m' (Some a) (Some T) (Applied T (code_of a))"
  have ftd: "func_to_decorate_of a = a" "rewrap a ?x = ?x"
    using plain by (simp_all add: rewrap_def)
  obtain w' where w': "setattr w p n ?x = Inr w'" "getattr_static w' p n = Inr ?x"
    using setattr_after_getattr_static [OF attr] by blast
  have "\<not> already_decorated T a" using plain by simp
  with target attr first x ftd w' have w1: "w1 = w'"
    by (simp add: decorate_singleton decorate_target_resolved)
  obtain w2 where w2: "setattr w' p n a = Inr w2"
    using setattr_total [OF w'(2)] by blast
  have chain: "walk_chain ?x = [?x, a]" using plain by simp
  have "undecorate_body w' f' None False = Inr (True, w2)"
    using target' w'(2) w2 chain unfolding w1
    by (simp add: undecorate_body_def deconstruct_chain_resolved select_removal_def rebuild_def
             del: walk_chain.simps)
  then have "undecorate f' None False roe' w1 = (w2, Inr True)"
    unfolding w1 by (simp add: undecorate_def)
  moreover have "setattr w p n a = Inr w2"
    using w'(1) w2 by (rule setattr_same)
  ultimately show ?thesis by blast
qed

section \<open>Replacing a single occurrence\<close>

text \<open>
  C1. The claim: with \<^verbatim>\<open>change_all=False\<close>, \<^verbatim>\<open>redecorate\<close> puts the new decorator at
  the outermost occurrence of the old one. On \<^verbatim>\<open>f\<close> decorated twice with decorator 1 the
  outermost occurrence is the second layer, so the claim asks for the behaviour
  \<open>Applied 2 (Applied 1 (Body f))\<close>. The code replaces the innermost occurrence and
  leaves decorator 1 outermost.
\<close>

theorem redecorate_single_replaces_innermost:
  "call_behaviour
     (fst (redecorate 1 2 [app_f] False True
        (fst (decorate 1 [app_f] True True (fst (decorate 1 [app_f] True True app_world))))))
     0 ''f''
   = Some (Applied 1 (Applied 2 (Body ''f'')))"
  by code_simp

section \<open>Layers without a recorded decorator\<close>

text \<open>
  C2. The claim: a committed \<^verbatim>\<open>redecorate\<close> or \<^verbatim>\<open>undecorate\<close> keeps a layer whose
  decorator is not recorded, at its position, with its effect. On the chain (9 untracked,
  then 1 applied by \<^verbatim>\<open>decorate\<close>) the claim asks for \<open>Applied 2 (Applied 9 (Body f))\<close>
  after replacing 1 by 2, and for \<open>Applied 9 (Body f)\<close> after removing the outermost
  layer. In \<^verbatim>\<open>redecorate\<close> the closure \<^verbatim>\<open>lambda f: wrapper\<close> stands for the layer; when
  it is called, \<^verbatim>\<open>wrapper\<close> is the last wrapper the loop visited, so the old chain comes
  back whole and decorator 2 is put on top of decorator 1. In \<^verbatim>\<open>undecorate\<close> the test
  \<^verbatim>\<open>if deco\<close> leaves the layer out.
\<close>

theorem untracked_layer_not_preserved:
  "call_behaviour
     (fst (redecorate 1 2 [app_f] True True (fst (decorate 1 [app_f] False True anon_world))))
     0 ''f''
   = Some (Applied 2 (Applied 1 (Applied 9 (Body ''f''))))
   \<and> (case undecorate app_f None False True (fst (decorate 1 [app_f] False True anon_world))
      of (w, r) \<Rightarrow> (call_behaviour w 0 ''f'', r))
   = (Some (Body ''f''), Inr True)"
  by code_simp

section \<open>Removing the outermost layer\<close>

text \<open>
  C3. The claim: \<^verbatim>\<open>undecorate(f)\<close> without a decorator removes exactly the outermost
  layer of a non-empty chain, also for a static or class method, and returns
  \<^verbatim>\<open>False\<close> without a mutation on an empty chain. For the static method \<^verbatim>\<open>C.s\<close>
  decorated with 1 and then 2, the chain \<^verbatim>\<open>_deconstruct_chain\<close> walks starts at the
  \<^verbatim>\<open>staticmethod\<close> object, which has \<^verbatim>\<open>__wrapped__\<close> and no recorded decorator; the
  entry popped is the one of the descriptor, and both decorators are applied again. On the
  undecorated static method the call returns \<^verbatim>\<open>True\<close>.
\<close>

theorem undecorate_static_keeps_outermost:
  "(case undecorate app_s None False True
           (fst (decorate 2 [app_s] False True (fst (decorate 1 [app_s] False True app_world))))
    of (w, r) \<Rightarrow> (call_behaviour w 5 ''s'', r))
   = (Some (Applied 2 (Applied 1 (Body ''C.s''))), Inr True)
   \<and> snd (undecorate app_s None False True app_world) = Inr True"
  by code_simp

section \<open>Applying and removing\<close>

text \<open>
  C4. The claim: \<^verbatim>\<open>decorate(T, f)\<close> followed by \<^verbatim>\<open>undecorate(f)\<close> gives back the call
  results and the chain length \<^verbatim>\<open>f\<close> had, also for static and class methods. For the
  static method \<^verbatim>\<open>C.s\<close> and for the class method \<^verbatim>\<open>C.k\<close> (passed as the function
  \<^verbatim>\<open>C.k.__func__\<close>) the decorator is still in effect after the round trip, and the
  bound method \<^verbatim>\<open>C.k\<close> itself cannot be decorated: its \<^verbatim>\<open>__self__.__class__\<close> is
  \<^verbatim>\<open>type\<close>.
\<close>

theorem decorate_undecorate_static_not_restored:
  "(case undecorate app_s None False True (fst (decorate 1 [app_s] False True app_world))
    of (w, r) \<Rightarrow> (call_behaviour w 5 ''s'', map_option chain_length (attrs w 5 ''s''), r))
   = (Some (Applied 1 (Body ''C.s'')), Some 1, Inr True)
   \<and> (case undecorate app_k None False True (fst (decorate 1 [app_k] False True app_world))
    of (w, r) \<Rightarrow> (call_behaviour w 5 ''k'', map_option chain_length (attrs w 5 ''k''), r))
   = (Some (Applied 1 (Body ''C.k'')), Some 1, Inr True)
   \<and> call_behaviour app_world 5 ''s'' = Some (Body ''C.s'')
   \<and> map_option chain_length (attrs app_world 5 ''s'') = Some 0
   \<and> snd (decorate 1 [BoundMethod (ClassObj 5) app_k] False True app_world)
       = Inl AttributeError"
  by code_simp

section \<open>What a rebuilt chain records\<close>

text \<open>
  C5. The claim: after every committed operation the attribute written back is a chain
  from which \<^verbatim>\<open>_deconstruct_chain\<close> recovers the layers just written, each with its
  decorator recorded. \<^verbatim>\<open>decorate\<close> calls \<^verbatim>\<open>functools.update_wrapper\<close> and sets
  \<^verbatim>\<open>_applied_decorator\<close>; the rebuilding loops of \<^verbatim>\<open>redecorate\<close> and \<^verbatim>\<open>undecorate\<close>
  only call the decorator. After \<^verbatim>\<open>undecorate\<close> has removed decorator 2 from the chain
  (1, 2) the layer of decorator 1 is in effect and is reported without a decorator, so
  \<^verbatim>\<open>undecorate(f, 1)\<close> finds nothing; with the decorators 3 and 4, which return bare
  closures, no layer is reported at all; after \<^verbatim>\<open>redecorate\<close> has put 2 in the place of
  1 the layer of 2 is reported without a decorator.
\<close>

theorem rebuilt_layers_lose_their_record:
  "(let w = fst (undecorate app_f None False True
             (fst (decorate 2 [app_f] False True (fst (decorate 1 [app_f] False True app_world)))))
    in (call_behaviour w 0 ''f'', map_sum id ci_decorators (deconstruct_chain w app_f),
        snd (undecorate app_f (Some 1) False True w)))
   = (Some (Applied 1 (Body ''f'')), Inr [None], Inr False)
   \<and> (let w = fst (undecorate app_f None False True
             (fst (decorate 4 [app_f] False True (fst (decorate 3 [app_f] False True app_world)))))
    in (call_behaviour w 0 ''f'', map_sum id ci_decorators (deconstruct_chain w app_f)))
   = (Some (Applied 3 (Body ''f'')), Inr [])
   \<and> (let w = fst (redecorate 1 2 [app_f] True True
             (fst (decorate 1 [app_f] False True app_world)))
    in (call_behaviour w 0 ''f'', map_sum id ci_decorators (deconstruct_chain w app_f)))
   = (Some (Applied 2 (Body ''f'')), Inr [None])
   \<and> map_sum id ci_decorators
       (deconstruct_chain
          (fst (decorate 2 [app_f] False True (fst (decorate 1 [app_f] False True app_world))))
          app_f)
   = Inr [Some 1, Some 2]"
  by code_simp

section \<open>Applying the same decorator twice\<close>

text \<open>
  C6. When \<^verbatim>\<open>decorate(T, f)\<close> without \<^verbatim>\<open>decorate_again\<close> has returned for a target
  that can be resolved, a second call for the same target, under any reference \<open>f'\<close> that
  resolves to it, finds \<open>T\<close> in the chain: it returns \<^verbatim>\<open>False\<close>, raises nothing and
  leaves the world as it is, whatever the descriptor of the attribute and the position of
  \<open>T\<close>. When the first call added a layer, the chain is one layer longer than before, so
  it has length 1 for a target that had no layer, and it keeps that length.
\<close>

theorem decorate_twice_idempotent:
  assumes target: "get_parent_and_name w f = Inr (p, n)"
      and attr: "getattr_static w p n = Inr a"
      and first: "decorate T [f] False roe w = (w1, Inr [r])"
      and again: "get_parent_and_name w1 f' = Inr (p, n)"
  shows "decorate T [f'] False roe' w1 = (w1, Inr [False])
       \<and> (r \<and> truthy (func_to_decorate_of a)
            \<longrightarrow> map_sum id chain_length (getattr_static w1 p n) = Inr (chain_length a + 1))"
proof (cases "already_decorated T a")
  case True
  with target attr first have "w1 = w" "r = False"
    by (simp_all add: decorate_singleton decorate_target_resolved)
  with True target attr again show ?thesis
    by (simp add: decorate_singleton decorate_target_resolved)
next
  case False
  let ?g = "func_to_decorate_of a"
  obtain n' q' m' where x: "set_applied (update_wrapper (call_decorator w T ?g) ?g) T
      = Function n' q' m' (Some ?g) (Some T) (Applied T (code_of ?g))"
    using decorated_shape by blast
  let ?x = "Function n' q' m' (Some ?g) (Some T) (Applied T (code_of ?g))"
  obtain w' where w': "setattr w p n (rewrap a ?x) = Inr w'"
      "getattr_static w' p n = Inr (rewrap a ?x)"
    using setattr_after_getattr_static [OF attr] by blast
  with False target attr first x have "w1 = w'" "r = True"
    by (simp_all add: decorate_singleton decorate_target_resolved)
  have dup: "already_decorated T (rewrap a ?x)"
    by (rule already_decorated_rewrap) simp
  have "decorate T [f'] False roe' w1 = (w1, Inr [False])"
    using again w'(2) dup \<open>w1 = w'\<close>
    by (simp add: decorate_singleton decorate_target_resolved)
  moreover have "truthy ?g \<Longrightarrow> chain_length (rewrap a ?x) = chain_length a + 1"
    by (rule chain_length_rewrap [where g = ?g]) simp_all
  ultimately show ?thesis
    using w'(2) \<open>w1 = w'\<close> by simp
qed

text \<open>
  The function \<^verbatim>\<open>f\<close> of the program above, decorated twice with decorator 1; the second
  call is given the wrapper that \<^verbatim>\<open>app.f\<close> then is.
\<close>

theorem decorate_twice_idempotent_witness:
  "decorate 1 [Function ''f'' ''f'' ''app'' (Some app_f) (Some 1) (Applied 1 (Body ''f''))]
      False True (fst (decorate 1 [app_f] False True app_world))
   = (fst (decorate 1 [app_f] False True app_world), Inr [False])
   \<and> map_sum id chain_length
       (getattr_static (fst (decorate 1 [app_f] False True app_world)) (ModuleObj 0) ''f'')
     = Inr 1"
proof -
  let ?w1 = "fst (decorate 1 [app_f] False True app_world)"
  let ?f' = "Function ''f'' ''f'' ''app'' (Some app_f) (Some 1) (Applied 1 (Body ''f''))"
  have target: "get_parent_and_name app_world app_f = Inr (ModuleObj 0, ''f'')"
    by code_simp
  have attr: "getattr_static app_world (ModuleObj 0) ''f'' = Inr app_f"
    by code_simp
  have "snd (decorate 1 [app_f] False True app_world) = Inr [True]"
    by code_simp
  then have first: "decorate 1 [app_f] False True app_world = (?w1, Inr [True])"
    by (simp add: prod_eq_iff)
  have again: "get_parent_and_name ?w1 ?f' = Inr (ModuleObj 0, ''f'')"
    by code_simp
  have len: "chain_length app_f = 0" and tr: "truthy (func_to_decorate_of app_f)"
    by code_simp+
  from decorate_twice_idempotent [OF target attr first again, of True] len tr
  show ?thesis by simp
qed

section \<open>A failing target in a batch\<close>

text \<open>
  C7. A batch \<^verbatim>\<open>decorate\<close> or \<^verbatim>\<open>redecorate\<close> over the targets \<open>fs\<close>, \<open>g\<close>, \<open>hs\<close>.
  The targets \<open>fs\<close> commit one after the other: the operation on \<open>fs ! i\<close>, run in the
  world the target before it left, gives the result \<open>rs ! i\<close> and leaves the world
  \<open>ws ! i\<close>. In the world the last of them left, \<open>g\<close> fails with the exception \<open>e\<close>.
  With \<^verbatim>\<open>raise_on_error=True\<close> the call ends with \<open>e\<close> and no results, and the world is
  the one the last target of \<open>fs\<close> left: every mutation committed before \<open>g\<close> is in
  place. With \<^verbatim>\<open>raise_on_error=False\<close> the call returns the results of \<open>fs\<close>, then
  \<^verbatim>\<open>False\<close> for \<open>g\<close>, then one result for each target of \<open>hs\<close>, which are processed one
  after the other from that same world: a target that succeeds gives its result and its
  world, a target that fails gives \<^verbatim>\<open>False\<close> and leaves the world as it is.
\<close>

theorem batch_error_contract:
  "(length ws = length fs \<and> length rs = length fs
      \<and> (\<forall>i<length fs.
            decorate_target T again ((w # ws) ! i) (fs ! i) = Inr (rs ! i, ws ! i))
      \<and> decorate_target T again (last (w # ws)) g = Inl e
    \<longrightarrow> decorate T (fs @ g # hs) again True w = (last (w # ws), Inl e)
       \<and> (\<exists>us bs. length us = length hs \<and> length bs = length hs
             \<and> (\<forall>i<length hs.
                   (case decorate_target T again ((last (w # ws) # us) ! i) (hs ! i) of
                      Inr (r, w') \<Rightarrow> bs ! i = r \<and> us ! i = w'
                    | Inl e' \<Rightarrow> bs ! i = False \<and> us ! i = (last (w # ws) # us) ! i))
             \<and> decorate T (fs @ g # hs) again False w
                 = (last (last (w # ws) # us), Inr (rs @ False # bs))))
   \<and> (length vs = length fs \<and> length rs = length fs
      \<and> (\<forall>i<length fs.
            redecorate_target d1 d2 ca ((v # vs) ! i) (fs ! i) = Inr (rs ! i, vs ! i))
      \<and> redecorate_target d1 d2 ca (last (v # vs)) g = Inl e
    \<longrightarrow> redecorate d1 d2 (fs @ g # hs) ca True v = (last (v # vs), Inl e)
       \<and> (\<exists>us bs. length us = length hs \<and> length bs = length hs
             \<and> (\<forall>i<length hs.
                   (case redecorate_target d1 d2 ca ((last (v # vs) # us) ! i) (hs ! i) of
                      Inr (r, w') \<Rightarrow> bs ! i = r \<and> us ! i = w'
                    | Inl e' \<Rightarrow> bs ! i = False \<and> us ! i = (last (v # vs) # us) ! i))
             \<and> redecorate d1 d2 (fs @ g # hs) ca False v
                 = (last (last (v # vs) # us), Inr (rs @ False # bs))))"
proof (intro conjI impI)
  assume h: "length ws = length fs \<and> length rs = length fs
      \<and> (\<forall>i<length fs.
            decorate_target T again ((w # ws) ! i) (fs ! i) = Inr (rs ! i, ws ! i))
      \<and> decorate_target T again (last (w # ws)) g = Inl e"
  then show "decorate T (fs @ g # hs) again True w = (last (w # ws), Inl e)"
    by (intro decorate_batch_trace(1) [where rs = rs]) simp_all
  from h show "\<exists>us bs. length us = length hs \<and> length bs = length hs
             \<and> (\<forall>i<length hs.
                   (case decorate_target T again ((last (w # ws) # us) ! i) (hs ! i) of
                      Inr (r, w') \<Rightarrow> bs ! i = r \<and> us ! i = w'
                    | Inl e' \<Rightarrow> bs ! i = False \<and> us ! i = (last (w # ws) # us) ! i))
             \<and> decorate T (fs @ g # hs) again False w
                 = (last (last (w # ws) # us), Inr (rs @ False # bs))"
    by (intro decorate_batch_trace(2) [where e = e]) simp_all
next
  assume h: "length vs = length fs \<and> length rs = length fs
      \<and> (\<forall>i<length fs.
            redecorate_target d1 d2 ca ((v # vs) ! i) (fs ! i) = Inr (rs ! i, vs ! i))
      \<and> redecorate_target d1 d2 ca (last (v # vs)) g = Inl e"
  then show "redecorate d1 d2 (fs @ g # hs) ca True v = (last (v # vs), Inl e)"
    by (intro redecorate_batch_trace(1) [where rs = rs]) simp_all
  from h show "\<exists>us bs. length us = length hs \<and> length bs = length hs
             \<and> (\<forall>i<length hs.
                   (case redecorate_target d1 d2 ca ((last (v # vs) # us) ! i) (hs ! i) of
                      Inr (r, w') \<Rightarrow> bs ! i = r \<and> us ! i = w'
                    | Inl e' \<Rightarrow> bs ! i = False \<and> us ! i = (last (v # vs) # us) ! i))
             \<and> redecorate d1 d2 (fs @ g # hs) ca False v
                 = (last (last (v # vs) # us), Inr (rs @ False # bs))"
    by (intro redecorate_batch_trace(2) [where e = e]) simp_all
qed

text \<open>
  The batch \<^verbatim>\<open>f\<close>, \<^verbatim>\<open>g\<close>, \<^verbatim>\<open>C.s\<close> of the program above, where the module of \<^verbatim>\<open>g\<close>
  is not loaded. \<^verbatim>\<open>decorate\<close> with decorator 1 from the program as written: when the
  call raises, \<^verbatim>\<open>f\<close> is decorated and \<^verbatim>\<open>C.s\<close> is not; when it does not raise, both
  are. \<^verbatim>\<open>redecorate\<close> from 1 to 2 once \<^verbatim>\<open>f\<close> is decorated with 1: \<^verbatim>\<open>f\<close> then runs
  decorator 2 in both modes, and \<^verbatim>\<open>C.s\<close>, which has no layer, gives \<^verbatim>\<open>False\<close>.
\<close>

theorem batch_error_contract_witness:
  "decorate 1 [app_f, lost_g, app_s] False True app_world = (app_world_f, Inl AttributeError)
   \<and> decorate 1 [app_f, lost_g, app_s] False False app_world
       = (app_world_f_s, Inr [True, False, True])
   \<and> redecorate 1 2 [app_f, lost_g, app_s] True True app_world_f
       = (app_world_f2, Inl AttributeError)
   \<and> redecorate 1 2 [app_f, lost_g, app_s] True False app_world_f
       = (app_world_f2, Inr [True, False, False])
   \<and> call_behaviour app_world 0 ''f'' = Some (Body ''f'')
   \<and> call_behaviour app_world_f 0 ''f'' = Some (Applied 1 (Body ''f''))
   \<and> call_behaviour app_world_f 5 ''s'' = Some (Body ''C.s'')
   \<and> call_behaviour app_world_f_s 0 ''f'' = Some (Applied 1 (Body ''f''))
   \<and> call_behaviour app_world_f_s 5 ''s'' = Some (Applied 1 (Body ''C.s''))
   \<and> call_behaviour app_world_f2 0 ''f'' = Some (Applied 2 (Body ''f''))"
proof -
  have t1: "decorate_target 1 False app_world app_f = Inr (True, app_world_f)"
    by (simp add: decorate_target_def app_world_def app_f_def app_world_f_def app_f_1_def
          call_decorator_def app_decorators_def rewrap_def getmodule_def Let_def)
  have t2: "decorate_target 1 False app_world_f lost_g = Inl AttributeError"
    by (simp add: decorate_target_def app_world_def app_world_f_def lost_g_def getmodule_def)
  have t3: "decorate_target 1 False app_world_f app_s = Inr (True, app_world_f_s)"
    by (simp add: decorate_target_def app_world_def app_s_def app_world_f_def
          app_world_f_s_def app_s_1_def call_decorator_def app_decorators_def rewrap_def
          getmodule_def Let_def)
  have r1: "redecorate_target 1 2 True app_world_f app_f = Inr (True, app_world_f2)"
    by (simp add: redecorate_target_def app_world_def app_f_def app_world_f_def app_f_1_def
          app_world_f2_def app_f_2_def call_decorator_def app_decorators_def rewrap_def
          getmodule_def Let_def)
  have r2: "redecorate_target 1 2 True app_world_f2 lost_g = Inl AttributeError"
    by (simp add: redecorate_target_def app_world_def app_world_f_def app_world_f2_def
          lost_g_def getmodule_def)
  have r3: "redecorate_target 1 2 True app_world_f2 app_s = Inr (False, app_world_f2)"
    by (simp add: redecorate_target_def app_world_def app_s_def app_world_f_def
          app_world_f2_def rewrap_def getmodule_def Let_def)
  have l: "[app_f] @ lost_g # [app_s] = [app_f, lost_g, app_s]"
    by simp
  note c = batch_error_contract [where T = 1 and again = False and w = app_world
      and ws = "[app_world_f]" and fs = "[app_f]" and rs = "[True]" and g = lost_g
      and e = AttributeError and hs = "[app_s]" and ?d1.0 = 1 and ?d2.0 = 2 and ca = True
      and v = app_world_f and vs = "[app_world_f2]"]
  have hd: "length [app_world_f] = length [app_f] \<and> length [True] = length [app_f]
      \<and> (\<forall>i<length [app_f].
            decorate_target 1 False ((app_world # [app_world_f]) ! i) ([app_f] ! i)
              = Inr ([True] ! i, [app_world_f] ! i))
      \<and> decorate_target 1 False (last (app_world # [app_world_f])) lost_g = Inl AttributeError"
    using t1 t2 by simp
  have hr: "length [app_world_f2] = length [app_f] \<and> length [True] = length [app_f]
      \<and> (\<forall>i<length [app_f].
            redecorate_target 1 2 True ((app_world_f # [app_world_f2]) ! i) ([app_f] ! i)
              = Inr ([True] ! i, [app_world_f2] ! i))
      \<and> redecorate_target 1 2 True (last (app_world_f # [app_world_f2])) lost_g
           = Inl AttributeError"
    using r1 r2 by simp
  note d = c [THEN conjunct1, THEN mp, OF hd]
  have a1: "decorate 1 [app_f, lost_g, app_s] False True app_world
              = (app_world_f, Inl AttributeError)"
    using d [THEN conjunct1] unfolding l by simp
  from d [THEN conjunct2] obtain us bs
    where lu: "length us = length [app_s]" and lb: "length bs = length [app_s]"
      and tr: "\<forall>i<length [app_s].
                 (case decorate_target 1 False
                         ((last (app_world # [app_world_f]) # us) ! i) ([app_s] ! i) of
                    Inr (r, w') \<Rightarrow> bs ! i = r \<and> us ! i = w'
                  | Inl e' \<Rightarrow> bs ! i = False
                      \<and> us ! i = (last (app_world # [app_world_f]) # us) ! i)"
      and res: "decorate 1 ([app_f] @ lost_g # [app_s]) False False app_world
                  = (last (last (app_world # [app_world_f]) # us), Inr ([True] @ False # bs))"
    by blast
  from lu lb obtain u b where ub: "us = [u]" "bs = [b]"
    by (auto simp: length_Suc_conv)
  from tr t3 have "b = True" "u = app_world_f_s"
    unfolding ub by simp_all
  with res ub have a2: "decorate 1 [app_f, lost_g, app_s] False False app_world
                      = (app_world_f_s, Inr [True, False, True])"
    by simp
  note d' = c [THEN conjunct2, THEN mp, OF hr]
  have a3: "redecorate 1 2 [app_f, lost_g, app_s] True True app_world_f
              = (app_world_f2, Inl AttributeError)"
    using d' [THEN conjunct1] unfolding l by simp
  from d' [THEN conjunct2] obtain us' bs'
    where lu': "length us' = length [app_s]" and lb': "length bs' = length [app_s]"
      and tr': "\<forall>i<length [app_s].
                 (case redecorate_target 1 2 True
                         ((last (app_world_f # [app_world_f2]) # us') ! i) ([app_s] ! i) of
                    Inr (r, w') \<Rightarrow> bs' ! i = r \<and> us' ! i = w'
                  | Inl e' \<Rightarrow> bs' ! i = False
                      \<and> us' ! i = (last (app_world_f # [app_world_f2]) # us') ! i)"
      and res': "redecorate 1 2 ([app_f] @ lost_g # [app_s]) True False app_world_f
                  = (last (last (app_world_f # [app_world_f2]) # us'),
                     Inr ([True] @ False # bs'))"
    by blast
  from lu' lb' obtain u' b' where ub': "us' = [u']" "bs' = [b']"
    by (auto simp: length_Suc_conv)
  from tr' r3 have "b' = False" "u' = app_world_f2"
    unfolding ub' by simp_all
  with res' ub' have a4: "redecorate 1 2 [app_f, lost_g, app_s] True False app_world_f
                      = (app_world_f2, Inr [True, False, False])"
    by simp
  have obs: "call_behaviour app_world 0 ''f'' = Some (Body ''f'')"
    "call_behaviour app_world_f 0 ''f'' = Some (Applied 1 (Body ''f''))"
    "call_behaviour app_world_f 5 ''s'' = Some (Body ''C.s'')"
    "call_behaviour app_world_f_s 0 ''f'' = Some (Applied 1 (Body ''f''))"
    "call_behaviour app_world_f_s 5 ''s'' = Some (Applied 1 (Body ''C.s''))"
    "call_behaviour app_world_f2 0 ''f'' = Some (Applied 2 (Body ''f''))"
    by code_simp+
  show ?thesis
    by (intro conjI a1 a2 a3 a4 obs)
qed

section \<open>Finding the owner of a callable\<close>

text \<open>
  C8. The claim, for a bound method: the container is the class that declares the method.
  \<^verbatim>\<open>_get_parent_and_name\<close> returns \<^verbatim>\<open>func_obj.__self__.__class__\<close>, the class of the
  instance. For an instance of \<^verbatim>\<open>D\<close>, which inherits \<^verbatim>\<open>m\<close> from \<^verbatim>\<open>C\<close>, the method
  is declared by \<^verbatim>\<open>C\<close> (class 5) and the container returned is \<^verbatim>\<open>D\<close> (class 6).
  The claim, for a function with a nested qualified name: the container is the class the
  name leads to, and the call fails when that class cannot be found. The code looks the
  last class segment up in the module and nowhere else. For the method \<^verbatim>\<open>m\<close> of a class
  \<^verbatim>\<open>C\<close> local to the function \<^verbatim>\<open>make\<close>, no class is found along the qualified
  name, and the container returned is the class \<^verbatim>\<open>C\<close> of the module (class 5), which
  has nothing to do with it.
\<close>

theorem locator_container_counterexample:
  "declaring_class app_world (6 # mro_rest app_world 6) ''m'' = Some 5
   \<and> get_parent_and_name app_world (BoundMethod (Instance 6) app_m) = Inr (ClassObj 6, ''m'')
   \<and> enclosing_class local_world ''app'' ''make.<locals>.C.m'' = None
   \<and> get_parent_and_name local_world local_m = Inr (ClassObj 5, ''m'')"
  by code_simp

text \<open>
  C8, as amended. For a method bound to an instance, the container is the class of that
  instance, which is the declaring class when that class has the method in its own
  \<^verbatim>\<open>__dict__\<close>, and the name is the \<^verbatim>\<open>__name__\<close> of the function. For a function whose
  qualified name is a class name and a name, \<^verbatim>\<open>C.name\<close>, the container is the class the
  module of the function binds to \<^verbatim>\<open>C\<close> and the name is \<^verbatim>\<open>name\<close>; the call fails with
  \<^verbatim>\<open>TypeError\<close> when no such class is found. Nothing is said of qualified names with
  more segments.
\<close>

theorem locator_instance_class_and_module_class:
  "get_parent_and_name w (BoundMethod (Instance c) (Function n q m wr ap cd))
     = Inr (ClassObj c, n)
   \<and> (attrs w c n = Some v \<longrightarrow> declaring_class w (c # mro_rest w c) n = Some c)
   \<and> (CHR ''.'' \<notin> set cls \<and> CHR ''.'' \<notin> set nm \<longrightarrow>
        (enclosing_class w m (cls @ ''.'' @ nm) = Some (ClassObj k) \<longrightarrow>
           get_parent_and_name w (Function n (cls @ ''.'' @ nm) m wr ap cd)
             = Inr (ClassObj k, nm))
        \<and> (enclosing_class w m (cls @ ''.'' @ nm) = None \<longrightarrow>
           get_parent_and_name w (Function n (cls @ ''.'' @ nm) m wr ap cd)
             = Inl TypeError))"
proof (intro conjI impI)
  show "get_parent_and_name w (BoundMethod (Instance c) (Function n q m wr ap cd))
          = Inr (ClassObj c, n)"
    by simp
next
  assume "attrs w c n = Some v"
  then show "declaring_class w (c # mro_rest w c) n = Some c" by simp
next
  assume nd: "CHR ''.'' \<notin> set cls \<and> CHR ''.'' \<notin> set nm"
  then have sp: "split_dot (cls @ ''.'' @ nm) = [cls, nm]"
    by (simp add: split_dot_append_dot split_dot_no_dot)
  assume "enclosing_class w m (cls @ ''.'' @ nm) = Some (ClassObj k)"
  with sp show "get_parent_and_name w (Function n (cls @ ''.'' @ nm) m wr ap cd)
                  = Inr (ClassObj k, nm)"
    by (auto simp: enclosing_class_def getmodule_def Let_def split: option.splits)
next
  assume nd: "CHR ''.'' \<notin> set cls \<and> CHR ''.'' \<notin> set nm"
  then have sp: "split_dot (cls @ ''.'' @ nm) = [cls, nm]"
    by (simp add: split_dot_append_dot split_dot_no_dot)
  assume "enclosing_class w m (cls @ ''.'' @ nm) = None"
  with sp show "get_parent_and_name w (Function n (cls @ ''.'' @ nm) m wr ap cd)
                  = Inl TypeError"
    by (auto simp: enclosing_class_def getmodule_def Let_def split: option.splits)
qed

text \<open>
  The bound method \<^verbatim>\<open>D().m\<close>, the class \<^verbatim>\<open>C\<close>, which declares \<^verbatim>\<open>m\<close>, and the
  function \<^verbatim>\<open>C.s\<close> of the program above, and a function \<^verbatim>\<open>E.m\<close> of the same module,
  which has no class \<^verbatim>\<open>E\<close>.
\<close>

theorem locator_instance_class_and_module_class_witness:
  "get_parent_and_name app_world (BoundMethod (Instance 6) app_m) = Inr (ClassObj 6, ''m'')
   \<and> declaring_class app_world (5 # mro_rest app_world 5) ''m'' = Some 5
   \<and> get_parent_and_name app_world app_s = Inr (ClassObj 5, ''s'')
   \<and> get_parent_and_name app_world (Function ''m'' ''E.m'' ''app'' None None (Body ''E.m''))
       = Inl TypeError"
proof -
  have nd: "CHR ''.'' \<notin> set ''C'' \<and> CHR ''.'' \<notin> set ''s''"
    "CHR ''.'' \<notin> set ''E'' \<and> CHR ''.'' \<notin> set ''m''"
    by simp_all
  have q: "''C'' @ ''.'' @ ''s'' = ''C.s''" "''E'' @ ''.'' @ ''m'' = ''E.m''"
    by simp_all
  have own: "attrs app_world 5 ''m'' = Some app_m"
    by (simp add: app_world_def)
  have found: "enclosing_class app_world ''app'' ''C.s'' = Some (ClassObj 5)"
    by code_simp
  have missing: "enclosing_class app_world ''app'' ''E.m'' = None"
    by code_simp
  note t = locator_instance_class_and_module_class
  have "get_parent_and_name app_world (BoundMethod (Instance 6) app_m) = Inr (ClassObj 6, ''m'')"
    unfolding app_m_def
    by (rule t [where w = app_world and c = 6, THEN conjunct1])
  moreover have "declaring_class app_world (5 # mro_rest app_world 5) ''m'' = Some 5"
    by (rule t [where w = app_world and c = 5 and n = "''m''",
                THEN conjunct2, THEN conjunct1, THEN mp, OF own])
  moreover have "get_parent_and_name app_world app_s = Inr (ClassObj 5, ''s'')"
    unfolding app_s_def
    using t [where w = app_world and cls = "''C''" and nm = "''s''" and m = "''app''" and k = 5
               and n = "''s''" and wr = None and ap = None and cd = "Body ''C.s''",
             THEN conjunct2, THEN conjunct2, THEN mp, OF nd(1), THEN conjunct1, THEN mp]
          found
    unfolding q by blast
  moreover have "get_parent_and_name app_world
                   (Function ''m'' ''E.m'' ''app'' None None (Body ''E.m'')) = Inl TypeError"
    using t [where w = app_world and cls = "''E''" and nm = "''m''" and m = "''app''"
               and n = "''m''" and wr = None and ap = None and cd = "Body ''E.m''",
             THEN conjunct2, THEN conjunct2, THEN mp, OF nd(2), THEN conjunct2, THEN mp]
          missing
    unfolding q by blast
  ultimately show ?thesis by (intro conjI)
qed

section \<open>Importing the package\<close>

text \<open>
  C9. The claim: \<^verbatim>\<open>import draping\<close> succeeds; every name the two modules read while they
  are loaded is defined. \<^verbatim>\<open>draping.py\<close> imports \<^verbatim>\<open>Any\<close>, \<^verbatim>\<open>Callable\<close>, \<^verbatim>\<open>List\<close> and
  \<^verbatim>\<open>Tuple\<close> from \<^verbatim>\<open>typing\<close> and uses \<^verbatim>\<open>Optional\<close> in the signature of
  \<^verbatim>\<open>undecorate\<close>: where annotations are evaluated by the \<^verbatim>\<open>def\<close> statement, loading the
  module raises \<^verbatim>\<open>NameError\<close>. Where they are deferred the module loads, and the import
  in \<^verbatim>\<open>__init__.py\<close> raises \<^verbatim>\<open>ImportError\<close>: no statement of \<^verbatim>\<open>draping.py\<close> binds
  any of the six predicates.
\<close>

theorem import_draping_raises:
  "import_draping True = Inl (NameError ''Optional'')
   \<and> exec_module stdlib True [] draping_py = Inl (NameError ''Optional'')
   \<and> import_draping False = Inl (ImportError ''start_with'')
   \<and> filter (\<lambda>x. x \<in> set (concat (map binds draping_py)))
        [''start_with'', ''not_start_with'', ''contains'', ''not_contains'',
         ''positive_re'', ''negative_re''] = []"
  by code_simp

end
